theory Spec2Isabelle
  imports Main
begin

section \<open>Strings and the library operations the script calls\<close>

text \<open>
  The script is \<^verbatim>\<open>set_rb_date_added_from_sc.py\<close>. A Python \<^verbatim>\<open>str\<close> is a sequence of
  Unicode code points, so a string is a list of code points here; \<open>ustr\<close> turns an
  ASCII literal into one.
\<close>

type_synonym ustr = "nat list"

definition ustr :: "string \<Rightarrow> ustr" where
  "ustr s = map of_char s"

text \<open>
  \<^verbatim>\<open>unicodedata.normalize("NFKC", _)\<close>, \<^verbatim>\<open>str.lower\<close>, the whitespace test behind
  \<^verbatim>\<open>str.strip\<close> and \<^verbatim>\<open>str.split\<close>, and \<^verbatim>\<open>pathlib.Path(_).stem\<close> belong to the Python
  library, not to the script: the script's functions take them as a parameter.
\<close>

record pylib =
  uc_nfkc :: "ustr \<Rightarrow> ustr"
  uc_lower :: "ustr \<Rightarrow> ustr"
  uc_isspace :: "nat \<Rightarrow> bool"
  path_stem :: "ustr \<Rightarrow> ustr"

text \<open>\<^verbatim>\<open>s.replace(a, b)\<close> for one-character \<open>a\<close> and \<open>b\<close>.\<close>

definition str_replace :: "nat \<Rightarrow> nat \<Rightarrow> ustr \<Rightarrow> ustr" where
  "str_replace a b s = map (\<lambda>c. if c = a then b else c) s"

text \<open>\<^verbatim>\<open>s.strip()\<close>: drop leading and trailing whitespace.\<close>

definition str_strip :: "(nat \<Rightarrow> bool) \<Rightarrow> ustr \<Rightarrow> ustr" where
  "str_strip sp s = rev (dropWhile sp (rev (dropWhile sp s)))"

text \<open>\<^verbatim>\<open>s.split()\<close>: the maximal runs of non-whitespace, in order.\<close>

function str_split :: "(nat \<Rightarrow> bool) \<Rightarrow> ustr \<Rightarrow> ustr list" where
  "str_split sp [] = []"
| "str_split sp (c # cs) =
     (if sp c then str_split sp cs
      else (c # takeWhile (\<lambda>d. \<not> sp d) cs) # str_split sp (dropWhile (\<lambda>d. \<not> sp d) cs))"
  by pat_completeness auto
termination
  by (relation "measure (\<lambda>(sp, s). length s)")
     (auto simp: length_dropWhile_le less_Suc_eq_le)

text \<open>\<^verbatim>\<open>sep.join(ws)\<close>.\<close>

fun str_join :: "ustr \<Rightarrow> ustr list \<Rightarrow> ustr" where
  "str_join sep [] = []"
| "str_join sep [w] = w"
| "str_join sep (w # v # ws) = w @ sep @ str_join sep (v # ws)"

section \<open>Normalizer\<close>

text \<open>
  \<^verbatim>\<open>
  def normalize_title(raw: str) -> str:
      text = unicodedata.normalize("NFKC", raw or "")
      text = text.replace("\\uff1a", ":")
      text = " ".join(text.lower().strip().split())
      return text
  \<close>
  The source writes the full-width colon U+FF1A (65306) as a literal character; the
  colon is U+003A (58), the space U+0020 (32).
  On a string, \<^verbatim>\<open>raw or ""\<close> is \<open>raw\<close>.
\<close>

definition normalize_title :: "pylib \<Rightarrow> ustr \<Rightarrow> ustr" where
  "normalize_title L raw =
     (let text = uc_nfkc L raw;
          text = str_replace 65306 58 text;
          text = str_join [32] (str_split (uc_isspace L) (str_strip (uc_isspace L) (uc_lower L text)))
      in text)"

subsection \<open>The library on a fragment of Unicode\<close>

text \<open>
  Modelled from the Unicode standard and CPython's \<^verbatim>\<open>str\<close> methods, which are not part
  of the repository: the library restricted to strings over the ASCII code points,
  U+FF1A FULLWIDTH COLON, U+0331 COMBINING MACRON BELOW and the seventeen letters
  WITH LINE BELOW that Unicode composes from an ASCII letter and U+0331 (the table
  \<open>line_below\<close>: sixteen of them are eight pairs of a capital and a small letter, the
  seventeenth is U+1E96, small \<open>h\<close>, which has no capital). On such strings NFKC
  replaces U+FF1A by the colon and every letter with line below by its ASCII letter
  followed by U+0331, and then composes each ASCII letter of the table that is
  directly followed by U+0331; \<^verbatim>\<open>lower\<close> maps \<open>A..Z\<close> to \<open>a..z\<close> and a capital with line
  below to its small letter, the next code point; whitespace is U+0009..U+000D,
  U+001C..U+001F and U+0020. Statements about \<open>cpython\<close> are made for strings of this
  fragment only.
\<close>

definition line_below :: "(nat \<times> nat) list" where
  "line_below =
     [(66, 7686), (98, 7687), (68, 7694), (100, 7695), (75, 7732), (107, 7733),
      (76, 7738), (108, 7739), (78, 7752), (110, 7753), (82, 7774), (114, 7775),
      (84, 7790), (116, 7791), (90, 7828), (122, 7829), (104, 7830)]"

definition in_fragment :: "nat \<Rightarrow> bool" where
  "in_fragment c \<longleftrightarrow> c < 128 \<or> c = 65306 \<or> c = 817 \<or> c \<in> snd ` set line_below"

definition nfkc_decompose :: "nat \<Rightarrow> ustr" where
  "nfkc_decompose c =
     (if c = 65306 then [58]
      else (case map_of (map (\<lambda>(b, k). (k, b)) line_below) c of
              Some b \<Rightarrow> [b, 817]
            | None \<Rightarrow> [c]))"

fun nfkc_compose :: "ustr \<Rightarrow> ustr" where
  "nfkc_compose (a # b # cs) =
     (if b = 817
      then (case map_of line_below a of
              Some k \<Rightarrow> k # nfkc_compose cs
            | None \<Rightarrow> a # nfkc_compose (b # cs))
      else a # nfkc_compose (b # cs))"
| "nfkc_compose cs = cs"

definition nfkc_fragment :: "ustr \<Rightarrow> ustr" where
  "nfkc_fragment s = nfkc_compose (concat (map nfkc_decompose s))"

definition lower_cp :: "nat \<Rightarrow> nat" where
  "lower_cp c =
     (if 65 \<le> c \<and> c \<le> 90 then c + 32
      else if c \<in> set [7686, 7694, 7732, 7738, 7752, 7774, 7790, 7828] then c + 1
      else c)"

definition isspace_cp :: "nat \<Rightarrow> bool" where
  "isspace_cp c \<longleftrightarrow> (9 \<le> c \<and> c \<le> 13) \<or> (28 \<le> c \<and> c \<le> 32)"

text \<open>
  Modelled from CPython 3.11's \<^verbatim>\<open>pathlib.PurePosixPath\<close>, which is not part of the
  repository: \<^verbatim>\<open>name\<close> is the last path component that is neither empty nor \<^verbatim>\<open>.\<close>
  (the empty string when there is none), and \<^verbatim>\<open>stem\<close> cuts the name at its last dot
  unless that dot is the first or the last character. The slash is 47, the dot 46.
\<close>

fun str_split_on :: "nat \<Rightarrow> ustr \<Rightarrow> ustr list" where
  "str_split_on sep [] = [[]]"
| "str_split_on sep (c # cs) =
     (if c = sep then [] # str_split_on sep cs
      else (case str_split_on sep cs of [] \<Rightarrow> [[c]] | w # ws \<Rightarrow> (c # w) # ws))"

definition str_rfind :: "nat \<Rightarrow> ustr \<Rightarrow> int" where
  "str_rfind c s =
     (if c \<in> set s then int (length s) - 1 - int (length (takeWhile (\<lambda>d. d \<noteq> c) (rev s)))
      else - 1)"

definition posix_name :: "ustr \<Rightarrow> ustr" where
  "posix_name p =
     (case filter (\<lambda>w. w \<noteq> [] \<and> w \<noteq> [46]) (str_split_on 47 p) of
        [] \<Rightarrow> []
      | w # ws \<Rightarrow> last (w # ws))"

definition posix_stem :: "ustr \<Rightarrow> ustr" where
  "posix_stem p =
     (let name = posix_name p; i = str_rfind 46 name
      in if 0 < i \<and> i < int (length name) - 1 then take (nat i) name else name)"

definition cpython :: pylib where
  "cpython = \<lparr> uc_nfkc = nfkc_fragment, uc_lower = map lower_cp, uc_isspace = isspace_cp,
               path_stem = posix_stem \<rparr>"

section \<open>Instants\<close>

text \<open>
  A naive \<^verbatim>\<open>datetime\<close> is the number of microseconds since 0001-01-01T00:00:00; the
  largest one, 9999-12-31T23:59:59.999999, is \<open>dt_limit - 1\<close>. \<^verbatim>\<open>datetime(y, m, d, hh,
  mm, ss, us)\<close> is \<open>mk_datetime\<close>, with CPython's proleptic Gregorian day count.
\<close>

type_synonym datetime = int

definition dt_limit :: int where
  "dt_limit = 3652059 * 86400 * 1000000"

definition is_leap :: "int \<Rightarrow> bool" where
  "is_leap y \<longleftrightarrow> y mod 4 = 0 \<and> (y mod 100 \<noteq> 0 \<or> y mod 400 = 0)"

definition days_before_year :: "int \<Rightarrow> int" where
  "days_before_year year = (let y = year - 1 in y * 365 + y div 4 - y div 100 + y div 400)"

definition days_in_month :: "int \<Rightarrow> int \<Rightarrow> int" where
  "days_in_month y m =
     (if m = 2 then (if is_leap y then 29 else 28)
      else if m = 4 \<or> m = 6 \<or> m = 9 \<or> m = 11 then 30 else 31)"

definition days_before_month :: "int \<Rightarrow> int \<Rightarrow> int" where
  "days_before_month y m = sum_list (map (days_in_month y) [1 .. m - 1])"

definition ymd2ord :: "int \<Rightarrow> int \<Rightarrow> int \<Rightarrow> int" where
  "ymd2ord y m d = days_before_year y + days_before_month y m + d"

definition mk_datetime :: "int \<Rightarrow> int \<Rightarrow> int \<Rightarrow> int \<Rightarrow> int \<Rightarrow> int \<Rightarrow> int \<Rightarrow> datetime" where
  "mk_datetime y m d hh mm ss us =
     (((ymd2ord y m d - 1) * 24 + hh) * 60 + mm) * 60000000 + ss * 1000000 + us"

definition microsecond :: "datetime \<Rightarrow> int" where
  "microsecond dt = dt mod 1000000"

text \<open>\<^verbatim>\<open>dt.replace(microsecond=us)\<close>, for \<open>0 \<le> us < 1000000\<close>.\<close>

definition replace_microsecond :: "datetime \<Rightarrow> int \<Rightarrow> datetime" where
  "replace_microsecond dt us = dt - dt mod 1000000 + us"

text \<open>
  The exceptions that leave the modelled code. The script raises \<^verbatim>\<open>RuntimeError\<close> at
  four places of \<^verbatim>\<open>fetch_likes\<close>, told apart here by their cause.
\<close>

datatype runtime_cause = MissingCommand | YtDlpFailed int | JsonDecodeFailed | NoLikesEntries

datatype py_error = RuntimeError runtime_cause | ValueError | OverflowError

text \<open>
  \<^verbatim>\<open>dt - timedelta(seconds=k)\<close>. Python raises \<^verbatim>\<open>OverflowError\<close> when the timedelta
  exceeds 999999999 days or when the difference leaves the range of \<^verbatim>\<open>datetime\<close>; the
  first range contains every difference of two datetimes, so one test covers both.
\<close>

definition dt_sub_seconds :: "datetime \<Rightarrow> int \<Rightarrow> py_error + datetime" where
  "dt_sub_seconds dt k =
     (let r = dt - k * 1000000
      in if 0 \<le> r \<and> r < dt_limit then Inr r else Inl OverflowError)"

text \<open>
  \<^verbatim>\<open>
  def ensure_millis_precision(dt: datetime) -> datetime:
      if dt.microsecond == 0:
          return dt.replace(microsecond=900_000)
      return dt
  \<close>
\<close>

definition ensure_millis_precision :: "datetime \<Rightarrow> datetime" where
  "ensure_millis_precision dt =
     (if microsecond dt = 0 then replace_microsecond dt 900000 else dt)"

section \<open>Data model\<close>

text \<open>
  \<^verbatim>\<open>LikeEntry\<close>, the columns of a \<^verbatim>\<open>tables.DjmdContent\<close> row that the script reads or
  writes, \<^verbatim>\<open>Match\<close> and \<^verbatim>\<open>Unmatched\<close>. A record field is a constant of the theory, so
  the fields that \<^verbatim>\<open>Match\<close> and \<^verbatim>\<open>Unmatched\<close> share with another class carry a prefix:
  \<open>m_sc_id\<close> is \<^verbatim>\<open>Match.sc_id\<close>, \<open>u_file_path\<close> and \<open>u_local_title\<close> are
  \<^verbatim>\<open>Unmatched.file_path\<close> and \<^verbatim>\<open>Unmatched.local_title\<close>.
\<close>

record LikeEntry =
  index :: int
  sc_id :: ustr
  title :: ustr
  url :: ustr

record DjmdContent =
  FolderPath :: ustr
  Title :: "ustr option"
  created_at :: "datetime option"

record Match =
  row :: DjmdContent
  file_path :: ustr
  local_title :: ustr
  sc_index :: int
  m_sc_id :: ustr
  sc_title :: ustr
  sc_url :: ustr
  match_mode :: ustr
  old_created_at :: "datetime option"
  new_created_at :: "datetime option"

record Unmatched =
  u_file_path :: ustr
  u_local_title :: ustr
  reason :: ustr

section \<open>Reference list and index\<close>

text \<open>
  One element of the \<^verbatim>\<open>entries\<close> array that \<^verbatim>\<open>yt-dlp\<close> prints: \<open>None\<close> for an element
  that is falsy (\<^verbatim>\<open>null\<close> or an empty object), and the four keys the script reads
  otherwise, \<open>None\<close> for a key that is missing or \<^verbatim>\<open>null\<close>.
\<close>

record yt_entry =
  e_title :: "ustr option"
  e_id :: "ustr option"
  e_url :: "ustr option"
  e_webpage_url :: "ustr option"

text \<open>\<^verbatim>\<open>x or ""\<close> and \<^verbatim>\<open>x or y or ""\<close> on optional strings.\<close>

definition or_empty :: "ustr option \<Rightarrow> ustr" where
  "or_empty x = (case x of None \<Rightarrow> [] | Some s \<Rightarrow> s)"

definition or_else_empty :: "ustr option \<Rightarrow> ustr option \<Rightarrow> ustr" where
  "or_else_empty x y = (if or_empty x \<noteq> [] then or_empty x else or_empty y)"

text \<open>
  \<^verbatim>\<open>
  likes: List[LikeEntry] = []
  for i, entry in enumerate(entries, start=1):
      if not entry:
          continue
      title = (entry.get("title") or "").strip()
      if not title:
          continue
      sc_id = str(entry.get("id") or "")
      url = str(entry.get("url") or entry.get("webpage_url") or "")
      likes.append(LikeEntry(index=i, sc_id=sc_id, title=title, url=url))
  if not likes:
      raise RuntimeError(f"No likes entries found at: {likes_url}")
  return likes
  \<close>
  The loop of \<^verbatim>\<open>fetch_likes\<close> over \<open>entries\<close>, which is
  \<^verbatim>\<open>payload.get("entries") or []\<close>.
\<close>

fun likes_loop :: "pylib \<Rightarrow> int \<Rightarrow> yt_entry option list \<Rightarrow> LikeEntry list" where
  "likes_loop L i [] = []"
| "likes_loop L i (None # entries) = likes_loop L (i + 1) entries"
| "likes_loop L i (Some entry # entries) =
     (let title = str_strip (uc_isspace L) (or_empty (e_title entry))
      in if title = [] then likes_loop L (i + 1) entries
         else (let sc_id = or_empty (e_id entry);
                   url = or_else_empty (e_url entry) (e_webpage_url entry)
               in \<lparr> index = i, sc_id = sc_id, title = title, url = url \<rparr>
                    # likes_loop L (i + 1) entries))"

text \<open>
  What \<^verbatim>\<open>fetch_likes\<close> gets from outside: whether \<^verbatim>\<open>shutil.which("yt-dlp")\<close> finds the
  command, the return code of the subprocess, and what \<^verbatim>\<open>json.loads\<close> makes of its
  standard output, \<open>None\<close> where it raises \<^verbatim>\<open>JSONDecodeError\<close> and otherwise the
  \<^verbatim>\<open>entries\<close> of the document (the empty list when the key is missing or falsy). The
  document is taken to have the shape that \<^verbatim>\<open>yt-dlp --flat-playlist -J\<close> prints: an
  object whose entries are objects or \<^verbatim>\<open>null\<close>, with strings or \<^verbatim>\<open>null\<close> for titles.
  \<^verbatim>\<open>
  def require_cmd(name):
      if shutil.which(name):
          return
      raise RuntimeError(f"Missing required command: {name}")

  def fetch_likes(likes_url):
      require_cmd("yt-dlp")
      cmd = ["yt-dlp", "--flat-playlist", "-J", likes_url]
      proc = subprocess.run(cmd, capture_output=True, text=True, check=False)
      if proc.returncode != 0:
          raise RuntimeError(f"yt-dlp failed ({proc.returncode}) ...")
      try:
          payload = json.loads(proc.stdout)
      except json.JSONDecodeError as exc:
          raise RuntimeError(f"Failed to parse yt-dlp JSON output: {exc}") from exc
      entries = payload.get("entries") or []
      ...
  \<close>
\<close>

record yt_run =
  yt_found :: bool
  yt_returncode :: int
  yt_payload :: "yt_entry option list option"

definition fetch_likes :: "pylib \<Rightarrow> yt_run \<Rightarrow> py_error + LikeEntry list" where
  "fetch_likes L run =
     (if \<not> yt_found run then Inl (RuntimeError MissingCommand)
      else if yt_returncode run \<noteq> 0 then Inl (RuntimeError (YtDlpFailed (yt_returncode run)))
      else
        (case yt_payload run of
           None \<Rightarrow> Inl (RuntimeError JsonDecodeFailed)
         | Some entries \<Rightarrow>
             (let likes = likes_loop L 1 entries
              in if likes = [] then Inl (RuntimeError NoLikesEntries) else Inr likes)))"

text \<open>\<^verbatim>\<open>d.setdefault(k, v)\<close>: bind \<open>k\<close> only if it has no binding yet.\<close>

definition setdefault :: "('k \<rightharpoonup> 'v) \<Rightarrow> 'k \<Rightarrow> 'v \<Rightarrow> ('k \<rightharpoonup> 'v)" where
  "setdefault d k v = (case d k of None \<Rightarrow> d(k \<mapsto> v) | Some _ \<Rightarrow> d)"

text \<open>
  \<^verbatim>\<open>
  def build_likes_maps(likes):
      by_exact: Dict[str, LikeEntry] = {}
      by_norm: Dict[str, LikeEntry] = {}
      for item in likes:
          by_exact.setdefault(item.title, item)
          norm = normalize_title(item.title)
          if norm:
              by_norm.setdefault(norm, item)
      return by_exact, by_norm
  \<close>
\<close>

type_synonym likes_map = "ustr \<rightharpoonup> LikeEntry"

fun build_likes_loop :: "pylib \<Rightarrow> LikeEntry list \<Rightarrow> likes_map \<times> likes_map \<Rightarrow> likes_map \<times> likes_map" where
  "build_likes_loop L [] (by_exact, by_norm) = (by_exact, by_norm)"
| "build_likes_loop L (item # likes) (by_exact, by_norm) =
     (let by_exact = setdefault by_exact (title item) item;
          norm = normalize_title L (title item);
          by_norm = (if norm \<noteq> [] then setdefault by_norm norm item else by_norm)
      in build_likes_loop L likes (by_exact, by_norm))"

definition build_likes_maps :: "pylib \<Rightarrow> LikeEntry list \<Rightarrow> likes_map \<times> likes_map" where
  "build_likes_maps L likes = build_likes_loop L likes (Map.empty, Map.empty)"

section \<open>Row matcher\<close>

text \<open>
  \<^verbatim>\<open>
  def find_local_title(row):
      if row.Title:
          return str(row.Title)
      path = Path(str(row.FolderPath))
      return path.stem
  \<close>
\<close>

definition find_local_title :: "pylib \<Rightarrow> DjmdContent \<Rightarrow> ustr" where
  "find_local_title L r =
     (if or_empty (Title r) \<noteq> [] then or_empty (Title r) else path_stem L (FolderPath r))"

text \<open>
  The two \<^verbatim>\<open>for candidate in candidates\<close> loops of \<^verbatim>\<open>match_rows_to_likes\<close>, each
  leaving at its first hit:
  \<^verbatim>\<open>
  for candidate in candidates:
      if candidate in by_exact:
          item = by_exact[candidate]; mode = "exact"; break
  if item is None:
      for candidate in candidates:
          norm = normalize_title(candidate)
          if norm and norm in by_norm:
              item = by_norm[norm]; mode = "normalized"; break
  \<close>
\<close>

fun exact_pass :: "likes_map \<Rightarrow> ustr list \<Rightarrow> LikeEntry option" where
  "exact_pass by_exact [] = None"
| "exact_pass by_exact (candidate # candidates) =
     (case by_exact candidate of
        Some item \<Rightarrow> Some item
      | None \<Rightarrow> exact_pass by_exact candidates)"

fun norm_pass :: "pylib \<Rightarrow> likes_map \<Rightarrow> ustr list \<Rightarrow> LikeEntry option" where
  "norm_pass L by_norm [] = None"
| "norm_pass L by_norm (candidate # candidates) =
     (let norm = normalize_title L candidate
      in if norm \<noteq> [] \<and> by_norm norm \<noteq> None then by_norm norm
         else norm_pass L by_norm candidates)"

text \<open>One iteration of the loop over the rows: \<open>Inl\<close> is appended to \<^verbatim>\<open>unmatched\<close>,
  \<open>Inr\<close> to \<^verbatim>\<open>matched\<close>.\<close>

definition match_row :: "pylib \<Rightarrow> likes_map \<Rightarrow> likes_map \<Rightarrow> DjmdContent \<Rightarrow> Unmatched + Match" where
  "match_row L by_exact by_norm r =
     (let file_path = FolderPath r;
          local_title = find_local_title L r;
          basename_stem = path_stem L file_path;
          candidates = [local_title, basename_stem];
          (item, mode) =
            (case exact_pass by_exact candidates of
               Some it \<Rightarrow> (Some it, ustr ''exact'')
             | None \<Rightarrow>
                 (case norm_pass L by_norm candidates of
                    Some it \<Rightarrow> (Some it, ustr ''normalized'')
                  | None \<Rightarrow> (None, [])))
      in case item of
           None \<Rightarrow>
             Inl \<lparr> u_file_path = file_path, u_local_title = local_title,
                   reason = ustr ''not-found-in-likes'' \<rparr>
         | Some it \<Rightarrow>
             Inr \<lparr> row = r, file_path = file_path, local_title = local_title,
                   sc_index = index it, m_sc_id = sc_id it, sc_title = title it,
                   sc_url = url it, match_mode = mode, old_created_at = created_at r,
                   new_created_at = None \<rparr>)"

fun match_loop ::
  "pylib \<Rightarrow> likes_map \<Rightarrow> likes_map \<Rightarrow> DjmdContent list \<Rightarrow> Match list \<times> Unmatched list
     \<Rightarrow> Match list \<times> Unmatched list" where
  "match_loop L by_exact by_norm [] (matched, unmatched) = (matched, unmatched)"
| "match_loop L by_exact by_norm (r # rows) (matched, unmatched) =
     (case match_row L by_exact by_norm r of
        Inl u \<Rightarrow> match_loop L by_exact by_norm rows (matched, unmatched @ [u])
      | Inr m \<Rightarrow> match_loop L by_exact by_norm rows (matched @ [m], unmatched))"

definition match_rows_to_likes ::
  "pylib \<Rightarrow> DjmdContent list \<Rightarrow> likes_map \<Rightarrow> likes_map \<Rightarrow> Match list \<times> Unmatched list" where
  "match_rows_to_likes L rows by_exact by_norm = match_loop L by_exact by_norm rows ([], [])"

section \<open>Anchor and timestamp assignment\<close>

text \<open>
  \<^verbatim>\<open>datetime.strptime\<close> is a library function and a parameter here: \<open>strptime raw fmt\<close>
  is \<open>None\<close> where Python raises \<^verbatim>\<open>ValueError\<close>.
  \<^verbatim>\<open>
  def parse_anchor_datetime(raw):
      candidates = ["%Y-%m-%dT%H:%M:%S", "%Y-%m-%d %H:%M:%S", "%Y-%m-%dT%H:%M", "%Y-%m-%d %H:%M"]
      for fmt in candidates:
          try:
              return datetime.strptime(raw, fmt)
          except ValueError:
              continue
      raise ValueError(...)
  \<close>
\<close>

type_synonym strptime = "ustr \<Rightarrow> ustr \<Rightarrow> datetime option"

definition anchor_formats :: "ustr list" where
  "anchor_formats =
     [ustr ''%Y-%m-%dT%H:%M:%S'', ustr ''%Y-%m-%d %H:%M:%S'',
      ustr ''%Y-%m-%dT%H:%M'', ustr ''%Y-%m-%d %H:%M'']"

fun try_formats :: "strptime \<Rightarrow> ustr \<Rightarrow> ustr list \<Rightarrow> py_error + datetime" where
  "try_formats sp raw [] = Inl ValueError"
| "try_formats sp raw (fmt # fmts) =
     (case sp raw fmt of Some dt \<Rightarrow> Inr dt | None \<Rightarrow> try_formats sp raw fmts)"

definition parse_anchor_datetime :: "strptime \<Rightarrow> ustr \<Rightarrow> py_error + datetime" where
  "parse_anchor_datetime sp raw = try_formats sp raw anchor_formats"

text \<open>\<^verbatim>\<open>max(iterable)\<close>: \<^verbatim>\<open>ValueError\<close> on an empty iterable.\<close>

definition py_max :: "datetime list \<Rightarrow> py_error + datetime" where
  "py_max ds = (case ds of [] \<Rightarrow> Inl ValueError | d # ds' \<Rightarrow> Inr (fold max ds' d))"

text \<open>
  Lines 336 to 341 of \<^verbatim>\<open>main\<close>:
  \<^verbatim>\<open>
  if args.anchor_datetime:
      anchor = parse_anchor_datetime(args.anchor_datetime)
  else:
      anchor = max(m.old_created_at for m in matched if m.old_created_at is not None)
      if anchor is None:
          anchor = datetime.now()
  \<close>
  \<^verbatim>\<open>max\<close> returns one of the values it was given, and none of them is \<^verbatim>\<open>None\<close>: the
  variable \<open>anchor\<close> of that branch is \<open>Some\<close> of the maximum, and the test
  \<^verbatim>\<open>anchor is None\<close> is the \<open>None\<close> case below.
\<close>

definition resolve_anchor :: "strptime \<Rightarrow> datetime \<Rightarrow> ustr \<Rightarrow> Match list \<Rightarrow> py_error + datetime" where
  "resolve_anchor sp now anchor_datetime matched =
     (if anchor_datetime \<noteq> [] then parse_anchor_datetime sp anchor_datetime
      else
        (case py_max (List.map_filter old_created_at matched) of
           Inl e \<Rightarrow> Inl e
         | Inr mx \<Rightarrow>
             (let anchor = Some mx
              in case anchor of None \<Rightarrow> Inr now | Some a \<Rightarrow> Inr a)))"

text \<open>
  Lines 342 to 351 of \<^verbatim>\<open>main\<close>:
  \<^verbatim>\<open>
  anchor = ensure_millis_precision(anchor)
  matched_sorted = sorted(matched, key=lambda x: x.sc_index)
  for pos, m in enumerate(matched_sorted):
      if args.use_like_index_offset:
          offset_steps = m.sc_index - 1
      else:
          offset_steps = pos
      m.new_created_at = ensure_millis_precision(
          anchor - timedelta(seconds=offset_steps * args.step_seconds))
      m.row.created_at = m.new_created_at
  \<close>
  \<^verbatim>\<open>sorted\<close> is stable, as \<open>sort_key\<close> is. The loop is \<open>assign_loop\<close>, with \<open>pos\<close>
  the counter of \<^verbatim>\<open>enumerate\<close>; an exception leaves the loop.
\<close>

definition offset_steps :: "bool \<Rightarrow> nat \<Rightarrow> Match \<Rightarrow> int" where
  "offset_steps use_like_index_offset pos m =
     (if use_like_index_offset then sc_index m - 1 else int pos)"

definition set_new_created_at :: "datetime \<Rightarrow> Match \<Rightarrow> Match" where
  "set_new_created_at dt m =
     m\<lparr> new_created_at := Some dt, row := (row m)\<lparr> created_at := Some dt \<rparr> \<rparr>"

fun assign_loop :: "bool \<Rightarrow> int \<Rightarrow> datetime \<Rightarrow> nat \<Rightarrow> Match list \<Rightarrow> py_error + Match list" where
  "assign_loop g step anchor pos [] = Inr []"
| "assign_loop g step anchor pos (m # ms) =
     (case dt_sub_seconds anchor (offset_steps g pos m * step) of
        Inl e \<Rightarrow> Inl e
      | Inr dt \<Rightarrow>
          (case assign_loop g step anchor (Suc pos) ms of
             Inl e \<Rightarrow> Inl e
           | Inr out \<Rightarrow> Inr (set_new_created_at (ensure_millis_precision dt) m # out)))"

definition plan_updates :: "bool \<Rightarrow> int \<Rightarrow> datetime \<Rightarrow> Match list \<Rightarrow> py_error + Match list" where
  "plan_updates g step anchor0 matched =
     (let anchor = ensure_millis_precision anchor0;
          matched_sorted = sort_key sc_index matched
      in assign_loop g step anchor 0 matched_sorted)"

section \<open>The run up to the planned updates\<close>

text \<open>
  \<^verbatim>\<open>main\<close> from its argument checks to the end of the assignment loop, with what it
  reads from outside as a value: whether \<^verbatim>\<open>master.db\<close> and the target directory
  exist, the run of \<^verbatim>\<open>yt-dlp\<close>, the rows under the target prefix and the clock. The manifests it writes and the commit are left out. \<open>Returned n\<close>
  is \<^verbatim>\<open>return n\<close>, \<open>Raised e\<close> an exception that leaves \<^verbatim>\<open>main\<close>, and \<open>Planned\<close> the
  state after line 351.
\<close>

record args =
  step_seconds :: int
  anchor_datetime :: ustr
  use_like_index_offset :: bool

record world =
  w_db_path_exists :: bool
  w_target_dir_exists :: bool
  w_yt_dlp :: yt_run
  w_rows :: "DjmdContent list"
  w_now :: datetime

datatype main_result = Returned int | Raised py_error | Planned "Match list" "Unmatched list"

definition main :: "pylib \<Rightarrow> strptime \<Rightarrow> world \<Rightarrow> args \<Rightarrow> main_result" where
  "main L sp w a =
     (if step_seconds a < 1 then Returned 2
      else if \<not> w_db_path_exists w then Returned 2
      else if \<not> w_target_dir_exists w then Returned 2
      else
        (case fetch_likes L (w_yt_dlp w) of
           Inl e \<Rightarrow> Raised e
         | Inr likes \<Rightarrow>
             (let (by_exact, by_norm) = build_likes_maps L likes
              in if w_rows w = [] then Returned 3
                 else
                   (let (matched, unmatched) = match_rows_to_likes L (w_rows w) by_exact by_norm
                    in if matched = [] then Returned 3
                       else
                         (case resolve_anchor sp (w_now w) (anchor_datetime a) matched of
                            Inl e \<Rightarrow> Raised e
                          | Inr anchor \<Rightarrow>
                              (case plan_updates (use_like_index_offset a) (step_seconds a)
                                      anchor matched of
                                 Inl e \<Rightarrow> Raised e
                               | Inr planned \<Rightarrow> Planned planned unmatched))))))"

section \<open>The specification's wording of the index and of the matcher\<close>

text \<open>
  The index as the specification words it: the exact map sends a title to the first
  entry of the list with that title, the normalized map sends a non-empty key to the
  first entry whose title normalizes to it.
\<close>

definition spec_exact_map :: "LikeEntry list \<Rightarrow> likes_map" where
  "spec_exact_map likes t = List.find (\<lambda>e. title e = t) likes"

definition spec_norm_map :: "pylib \<Rightarrow> LikeEntry list \<Rightarrow> likes_map" where
  "spec_norm_map L likes k =
     (if k = [] then None else List.find (\<lambda>e. normalize_title L (title e) = k) likes)"

text \<open>
  The matcher as the specification words it: the candidates are the record's title,
  if present, and then the stem of its path; the first candidate found in the exact
  map decides, with mode exact; failing that, the first candidate whose normalized
  form is found in the normalized map decides, with mode normalized.
\<close>

definition spec_candidates :: "pylib \<Rightarrow> DjmdContent \<Rightarrow> ustr list" where
  "spec_candidates L r =
     (case Title r of None \<Rightarrow> [] | Some t \<Rightarrow> (if t = [] then [] else [t]))
       @ [path_stem L (FolderPath r)]"

definition spec_lookup :: "likes_map \<Rightarrow> ustr list \<Rightarrow> LikeEntry option" where
  "spec_lookup d keys =
     (case List.find (\<lambda>k. d k \<noteq> None) keys of None \<Rightarrow> None | Some k \<Rightarrow> d k)"

definition spec_match :: "pylib \<Rightarrow> likes_map \<Rightarrow> likes_map \<Rightarrow> DjmdContent \<Rightarrow> (LikeEntry \<times> ustr) option" where
  "spec_match L by_exact by_norm r =
     (case spec_lookup by_exact (spec_candidates L r) of
        Some it \<Rightarrow> Some (it, ustr ''exact'')
      | None \<Rightarrow>
          (case spec_lookup by_norm (map (normalize_title L) (spec_candidates L r)) of
             Some it \<Rightarrow> Some (it, ustr ''normalized'')
           | None \<Rightarrow> None))"

text \<open>
  A record hits a map, in the specification's words, when one of its candidates is a
  key of the exact map or normalizes to a key of the normalized map.
\<close>

definition spec_hits :: "pylib \<Rightarrow> likes_map \<Rightarrow> likes_map \<Rightarrow> DjmdContent \<Rightarrow> bool" where
  "spec_hits L by_exact by_norm r \<longleftrightarrow>
     (\<exists>c \<in> set (spec_candidates L r).
        by_exact c \<noteq> None \<or> by_norm (normalize_title L c) \<noteq> None)"

text \<open>What \<open>match_row\<close> returned, read as the specification's outcome.\<close>

definition outcome_of :: "Unmatched + Match \<Rightarrow> (int \<times> ustr \<times> ustr \<times> ustr \<times> ustr) option" where
  "outcome_of x =
     (case x of
        Inl u \<Rightarrow> None
      | Inr m \<Rightarrow> Some (sc_index m, m_sc_id m, sc_title m, sc_url m, match_mode m))"

definition spec_outcome :: "(LikeEntry \<times> ustr) option \<Rightarrow> (int \<times> ustr \<times> ustr \<times> ustr \<times> ustr) option" where
  "spec_outcome x =
     (case x of
        None \<Rightarrow> None
      | Some (it, mode) \<Rightarrow> Some (index it, sc_id it, title it, url it, mode))"

section \<open>Sample data\<close>

text \<open>
  The end-to-end example of the specification: four reference entries \<open>A\<close>, \<open>B\<close>,
  \<open>C\<close>, \<open>D\<close> ranked 1 to 4, four local rows titled \<open>b\<close>, \<open>A\<close>, \<open>d\<close>, \<open>Z\<close>, and the
  anchor 2024-01-01T00:00:00. The example leaves the ids, the urls and the paths
  open; the paths chosen here have stems that are no title of the list.
\<close>

definition ex_like :: "int \<Rightarrow> string \<Rightarrow> LikeEntry" where
  "ex_like i t = \<lparr> index = i, sc_id = [], title = ustr t, url = [] \<rparr>"

definition ex_likes :: "LikeEntry list" where
  "ex_likes = [ex_like 1 ''A'', ex_like 2 ''B'', ex_like 3 ''C'', ex_like 4 ''D'']"

definition ex_row :: "string \<Rightarrow> string \<Rightarrow> DjmdContent" where
  "ex_row p t = \<lparr> FolderPath = ustr p, Title = Some (ustr t), created_at = None \<rparr>"

definition ex_rows :: "DjmdContent list" where
  "ex_rows =
     [ex_row ''/music/t1.mp3'' ''b'', ex_row ''/music/t2.mp3'' ''A'',
      ex_row ''/music/t3.mp3'' ''d'', ex_row ''/music/t4.mp3'' ''Z'']"

definition ex_anchor :: datetime where
  "ex_anchor = mk_datetime 2024 1 1 0 0 0 0"

text \<open>A matched record of rank \<open>k\<close> for the row at path \<open>p\<close>, without timestamps.\<close>

definition ex_match :: "string \<Rightarrow> int \<Rightarrow> Match" where
  "ex_match p k =
     \<lparr> row = \<lparr> FolderPath = ustr p, Title = None, created_at = None \<rparr>,
       file_path = ustr p, local_title = [], sc_index = k, m_sc_id = [], sc_title = [],
       sc_url = [], match_mode = ustr ''exact'', old_created_at = None,
       new_created_at = None \<rparr>"

text \<open>The record that \<open>match_rows_to_likes\<close> builds for a row of the example.\<close>

definition ex_matched :: "string \<Rightarrow> string \<Rightarrow> int \<Rightarrow> string \<Rightarrow> string \<Rightarrow> Match" where
  "ex_matched p t k st mode =
     \<lparr> row = ex_row p t, file_path = ustr p, local_title = ustr t, sc_index = k,
       m_sc_id = [], sc_title = ustr st, sc_url = [], match_mode = ustr mode,
       old_created_at = None, new_created_at = None \<rparr>"

text \<open>The \<^verbatim>\<open>entries\<close> array from which \<^verbatim>\<open>fetch_likes\<close> builds the reference list of the
  example, and a world in which \<^verbatim>\<open>yt-dlp\<close> is found, returns 0 and prints a document
  with given entries.\<close>

definition ex_entry :: "string \<Rightarrow> yt_entry option" where
  "ex_entry t = Some \<lparr> e_title = Some (ustr t), e_id = None, e_url = None, e_webpage_url = None \<rparr>"

definition ex_entries :: "yt_entry option list" where
  "ex_entries = [ex_entry ''A'', ex_entry ''B'', ex_entry ''C'', ex_entry ''D'']"

definition ex_world :: "yt_entry option list \<Rightarrow> DjmdContent list \<Rightarrow> world" where
  "ex_world entries rows =
     \<lparr> w_db_path_exists = True, w_target_dir_exists = True,
       w_yt_dlp = \<lparr> yt_found = True, yt_returncode = 0, yt_payload = Some entries \<rparr>,
       w_rows = rows, w_now = ex_anchor \<rparr>"

definition ex_args :: "bool \<Rightarrow> args" where
  "ex_args g = \<lparr> step_seconds = 1, anchor_datetime = [], use_like_index_offset = g \<rparr>"

text \<open>What a planned record says of its row: the path, the matched title and rank, the
  timestamp stored in \<^verbatim>\<open>new_created_at\<close> and the one written to the row's
  \<^verbatim>\<open>created_at\<close>.\<close>

definition planned_view :: "Match \<Rightarrow> ustr \<times> ustr \<times> int \<times> datetime option \<times> datetime option" where
  "planned_view m =
     (file_path m, sc_title m, sc_index m, new_created_at m, created_at (row m))"

section \<open>Facts about the normalizer\<close>

lemma str_split_words:
  "w \<in> set (str_split sp s) \<Longrightarrow> w \<noteq> [] \<and> (\<forall>c \<in> set w. \<not> sp c) \<and> set w \<subseteq> set s"
proof (induction sp s rule: str_split.induct)
  case (1 sp)
  then show ?case by simp
next
  case (2 sp c cs)
  show ?case
  proof (cases "sp c")
    case True
    with 2 show ?thesis by auto
  next
    case False
    from 2(3) False consider "w = c # takeWhile (\<lambda>d. \<not> sp d) cs"
      | "w \<in> set (str_split sp (dropWhile (\<lambda>d. \<not> sp d) cs))"
      by auto
    then show ?thesis
    proof cases
      case 1
      then show ?thesis using False by (auto dest: set_takeWhileD)
    next
      case 2
      from "2.IH"(2) [OF False 2] show ?thesis by (auto dest: set_dropWhileD)
    qed
  qed
qed

lemma str_split_dropWhile: "str_split sp (dropWhile sp s) = str_split sp s"
  by (induction s) simp_all

lemma str_split_snoc_space: "sp x \<Longrightarrow> str_split sp (s @ [x]) = str_split sp s"
proof (induction sp s rule: str_split.induct)
  case (1 sp)
  then show ?case by simp
next
  case (2 sp c cs)
  show ?case
  proof (cases "sp c")
    case True
    with 2 show ?thesis by simp
  next
    case False
    show ?thesis
    proof (cases "\<forall>d \<in> set cs. \<not> sp d")
      case True
      then have "takeWhile (\<lambda>d. \<not> sp d) (cs @ [x]) = cs" "dropWhile (\<lambda>d. \<not> sp d) (cs @ [x]) = [x]"
        "takeWhile (\<lambda>d. \<not> sp d) cs = cs" "dropWhile (\<lambda>d. \<not> sp d) cs = []"
        using "2.prems" by (simp_all add: takeWhile_append2 dropWhile_append2)
      then show ?thesis using False "2.prems" by (simp del: takeWhile_eq_all_conv dropWhile_eq_Nil_conv)
    next
      case nall: False
      then have "takeWhile (\<lambda>d. \<not> sp d) (cs @ [x]) = takeWhile (\<lambda>d. \<not> sp d) cs"
        "dropWhile (\<lambda>d. \<not> sp d) (cs @ [x]) = dropWhile (\<lambda>d. \<not> sp d) cs @ [x]"
        by (auto simp: takeWhile_append1 dropWhile_append1)
      then show ?thesis using False "2.IH"(2) [OF False "2.prems"] by simp
    qed
  qed
qed

lemma str_split_drop_trailing: "str_split sp (rev (dropWhile sp (rev s))) = str_split sp s"
proof (induction s rule: rev_induct)
  case Nil
  show ?case by simp
next
  case (snoc x xs)
  show ?case
  proof (cases "sp x")
    case True
    then show ?thesis using snoc by (simp add: str_split_snoc_space)
  next
    case False
    then show ?thesis by simp
  qed
qed

lemma str_split_strip: "str_split sp (str_strip sp s) = str_split sp s"
  by (simp only: str_strip_def str_split_drop_trailing str_split_dropWhile)

lemma str_split_single:
  "w \<noteq> [] \<Longrightarrow> \<forall>c \<in> set w. \<not> sp c \<Longrightarrow> str_split sp w = [w]"
  by (cases w) (simp_all add: dropWhile_eq_Nil_conv [THEN iffD2])

lemma str_split_word_space:
  "w \<noteq> [] \<Longrightarrow> \<forall>c \<in> set w. \<not> sp c \<Longrightarrow> sp x \<Longrightarrow> str_split sp (w @ x # r) = w # str_split sp r"
  by (cases w) (simp_all add: takeWhile_append2 dropWhile_append2)

lemma str_split_join:
  assumes "sp x" and "\<forall>w \<in> set ws. w \<noteq> [] \<and> (\<forall>c \<in> set w. \<not> sp c)"
  shows "str_split sp (str_join [x] ws) = ws"
  using assms(2)
proof (induction "[x]" ws rule: str_join.induct)
  case 1
  show ?case by simp
next
  case (2 w)
  then show ?case by (simp add: str_split_single)
next
  case (3 w v ws)
  then show ?case using assms(1) by (simp add: str_split_word_space)
qed

lemma set_str_join: "set (str_join sep ws) \<subseteq> set sep \<union> \<Union> (set ` set ws)"
  by (induction sep ws rule: str_join.induct) auto

lemma normalize_title_stable:
  assumes sp: "uc_isspace L 32"
    and n: "uc_nfkc L (normalize_title L x) = normalize_title L x"
    and l: "uc_lower L (normalize_title L x) = normalize_title L x"
    and c: "65306 \<notin> set (normalize_title L x)"
  shows "normalize_title L (normalize_title L x) = normalize_title L x"
proof -
  let ?sp = "uc_isspace L"
  let ?ws = "str_split ?sp (str_strip ?sp (uc_lower L (str_replace 65306 58 (uc_nfkc L x))))"
  let ?y = "normalize_title L x"
  have yj: "?y = str_join [32] ?ws"
    by (simp add: normalize_title_def)
  have words: "\<forall>w \<in> set ?ws. w \<noteq> [] \<and> (\<forall>c \<in> set w. \<not> ?sp c)"
    using str_split_words [of _ ?sp] by blast
  have r: "str_replace 65306 58 ?y = ?y"
    unfolding str_replace_def
  proof (rule map_idI)
    fix d assume "d \<in> set ?y"
    with c have "d \<noteq> 65306" by blast
    then show "(if d = 65306 then 58 else d) = d" by simp
  qed
  have "normalize_title L ?y
          = str_join [32] (str_split ?sp (str_strip ?sp (uc_lower L (str_replace 65306 58 (uc_nfkc L ?y)))))"
    by (simp add: normalize_title_def [of L ?y])
  also have "\<dots> = str_join [32] (str_split ?sp ?y)"
    by (simp only: n r l str_split_strip)
  also have "str_split ?sp ?y = ?ws"
    unfolding yj by (rule str_split_join [OF sp words])
  finally show ?thesis by (simp only: yj [symmetric])
qed

lemma nfkc_compose_id: "817 \<notin> set s \<Longrightarrow> nfkc_compose s = s"
  by (induction s rule: nfkc_compose.induct) auto

lemma nfkc_decompose_ascii: "c < 128 \<Longrightarrow> nfkc_decompose c = [c]"
  by (auto simp: nfkc_decompose_def line_below_def)

lemma nfkc_decompose_plain:
  "\<forall>c \<in> set s. c < 128 \<or> c = 65306 \<Longrightarrow>
   concat (map nfkc_decompose s) = str_replace 65306 58 s"
proof (induction s)
  case Nil
  show ?case by (simp add: str_replace_def)
next
  case (Cons c s)
  then have "c < 128 \<or> c = 65306" by simp
  then have "nfkc_decompose c = [if c = 65306 then 58 else c]"
    by (auto simp: nfkc_decompose_ascii) (simp add: nfkc_decompose_def)
  then show ?case using Cons by (simp add: str_replace_def)
qed

lemma nfkc_fragment_plain:
  assumes "\<forall>c \<in> set s. c < 128 \<or> c = 65306"
  shows "nfkc_fragment s = str_replace 65306 58 s"
proof -
  have "817 \<notin> set (str_replace 65306 58 s)"
    using assms by (auto simp: str_replace_def)
  then show ?thesis
    by (simp add: nfkc_fragment_def nfkc_decompose_plain [OF assms] nfkc_compose_id)
qed

lemma normalize_title_plain:
  assumes "\<forall>c \<in> set s. c < 128 \<or> c = 65306"
  shows "normalize_title cpython s =
           str_join [32] (str_split isspace_cp
             (map lower_cp (str_replace 65306 58 (str_replace 65306 58 s))))"
  by (simp add: normalize_title_def cpython_def nfkc_fragment_plain [OF assms] str_split_strip)

lemma lowered_chars:
  assumes "\<forall>c \<in> set s. c < 128 \<or> c = 65306"
  shows "\<forall>c \<in> set (map lower_cp (str_replace 65306 58 (str_replace 65306 58 s))).
           c < 128 \<and> \<not> (65 \<le> c \<and> c \<le> 90)"
  using assms by (auto simp: str_replace_def lower_cp_def)

lemma normalize_title_fixed:
  assumes low: "\<forall>c \<in> set t. c < 128 \<and> \<not> (65 \<le> c \<and> c \<le> 90)"
  shows "normalize_title cpython (str_join [32] (str_split isspace_cp t))
           = str_join [32] (str_split isspace_cp t)"
proof -
  let ?ws = "str_split isspace_cp t"
  let ?y = "str_join [32] ?ws"
  have words: "\<forall>w \<in> set ?ws. w \<noteq> [] \<and> (\<forall>c \<in> set w. \<not> isspace_cp c)"
    using str_split_words [of _ isspace_cp t] by blast
  have "set ?y \<subseteq> insert 32 (set t)"
    using set_str_join [of "[32]" ?ws] str_split_words [of _ isspace_cp t] by auto
  then have ylow: "\<forall>c \<in> set ?y. c < 128 \<and> \<not> (65 \<le> c \<and> c \<le> 90)"
    using low by auto
  then have plain: "\<forall>c \<in> set ?y. c < 128 \<or> c = 65306" by blast
  have r: "str_replace 65306 58 ?y = ?y"
    unfolding str_replace_def
  proof (rule map_idI)
    fix c assume "c \<in> set ?y"
    with ylow have "c < 128" by blast
    then show "(if c = 65306 then 58 else c) = c" by simp
  qed
  have l: "map lower_cp ?y = ?y"
  proof (rule map_idI)
    fix c assume "c \<in> set ?y"
    with ylow have "c < 128 \<and> \<not> (65 \<le> c \<and> c \<le> 90)" by blast
    then show "lower_cp c = c" by (auto simp: lower_cp_def)
  qed
  have s: "str_split isspace_cp ?y = ?ws"
    by (rule str_split_join [OF _ words]) (simp add: isspace_cp_def)
  show ?thesis
    by (simp only: normalize_title_plain [OF plain] r l s)
qed

lemma normalize_title_idem:
  assumes "\<forall>c \<in> set s. c < 128 \<or> c = 65306"
  shows "normalize_title cpython (normalize_title cpython s) = normalize_title cpython s"
  by (simp only: normalize_title_plain [OF assms] normalize_title_fixed [OF lowered_chars [OF assms]])

section \<open>Facts about instants\<close>

lemma microsecond_ensure: "microsecond (ensure_millis_precision dt) \<noteq> 0"
proof (cases "microsecond dt = 0")
  case True
  have "(dt + 900000) mod 1000000 = (dt mod 1000000 + 900000) mod 1000000"
    by (simp only: mod_add_left_eq)
  with True show ?thesis
    by (simp add: ensure_millis_precision_def microsecond_def replace_microsecond_def)
next
  case False
  then show ?thesis by (simp add: ensure_millis_precision_def)
qed

lemma microsecond_ensure_whole:
  assumes "microsecond dt = 0"
  shows "microsecond (ensure_millis_precision dt) = 900000"
proof -
  have "(dt + 900000) mod 1000000 = (dt mod 1000000 + 900000) mod 1000000"
    by (simp only: mod_add_left_eq)
  with assms show ?thesis
    by (simp add: ensure_millis_precision_def microsecond_def replace_microsecond_def)
qed

lemma ensure_idem:
  "ensure_millis_precision (ensure_millis_precision dt) = ensure_millis_precision dt"
  using microsecond_ensure [of dt]
  by (simp add: ensure_millis_precision_def [of "ensure_millis_precision dt"])

lemma microsecond_shift: "microsecond (dt - k * 1000000) = microsecond dt"
proof -
  have "(dt - k * 1000000) mod 1000000 = (dt - (k * 1000000) mod 1000000) mod 1000000"
    by (simp only: mod_diff_right_eq)
  then show ?thesis by (simp add: microsecond_def)
qed

lemma ensure_shift:
  "microsecond a \<noteq> 0 \<Longrightarrow> ensure_millis_precision (a - k * 1000000) = a - k * 1000000"
  by (simp add: ensure_millis_precision_def microsecond_shift)

section \<open>The assignment loop in closed form\<close>

lemma assign_loop_char:
  assumes "microsecond a \<noteq> 0"
  shows "assign_loop g step a pos ms =
     (if \<forall>(p, m) \<in> set (enumerate pos ms).
            0 \<le> a - offset_steps g p m * step * 1000000
            \<and> a - offset_steps g p m * step * 1000000 < dt_limit
      then Inr (map (\<lambda>(p, m). set_new_created_at (a - offset_steps g p m * step * 1000000) m)
                  (enumerate pos ms))
      else Inl OverflowError)"
proof (induction ms arbitrary: pos)
  case Nil
  show ?case by simp
next
  case (Cons m ms)
  show ?case
    by (simp add: Cons.IH dt_sub_seconds_def Let_def ensure_shift [OF assms])
qed

lemma plan_updates_char:
  "plan_updates g step anchor matched =
     (if \<forall>(p, m) \<in> set (enumerate 0 (sort_key sc_index matched)).
            0 \<le> ensure_millis_precision anchor - offset_steps g p m * step * 1000000
            \<and> ensure_millis_precision anchor - offset_steps g p m * step * 1000000 < dt_limit
      then Inr (map (\<lambda>(p, m). set_new_created_at
                       (ensure_millis_precision anchor - offset_steps g p m * step * 1000000) m)
                  (enumerate 0 (sort_key sc_index matched)))
      else Inl OverflowError)"
  by (simp only: plan_updates_def Let_def assign_loop_char [OF microsecond_ensure])

lemma plan_updates_Inr:
  assumes "plan_updates g step anchor matched = Inr planned"
  shows "length planned = length matched"
    and "p < length matched \<Longrightarrow>
         planned ! p = set_new_created_at
            (ensure_millis_precision anchor
               - offset_steps g p (sort_key sc_index matched ! p) * step * 1000000)
            (sort_key sc_index matched ! p)"
proof -
  let ?S = "sort_key sc_index matched"
  let ?A = "ensure_millis_precision anchor"
  have eq: "planned = map (\<lambda>(p, m). set_new_created_at (?A - offset_steps g p m * step * 1000000) m)
                  (enumerate 0 ?S)"
    using assms unfolding plan_updates_char by (auto split: if_splits)
  show "length planned = length matched" by (simp add: eq)
  show "planned ! p = set_new_created_at (?A - offset_steps g p (?S ! p) * step * 1000000) (?S ! p)"
    if "p < length matched"
    using that by (simp add: eq nth_enumerate_eq)
qed

lemma plan_updates_total:
  assumes "\<forall>p < length matched.
             0 \<le> ensure_millis_precision anchor
                   - offset_steps g p (sort_key sc_index matched ! p) * step * 1000000
             \<and> ensure_millis_precision anchor
                   - offset_steps g p (sort_key sc_index matched ! p) * step * 1000000 < dt_limit"
  shows "\<exists>planned. plan_updates g step anchor matched = Inr planned"
proof -
  have "\<forall>(p, m) \<in> set (enumerate 0 (sort_key sc_index matched)).
            0 \<le> ensure_millis_precision anchor - offset_steps g p m * step * 1000000
            \<and> ensure_millis_precision anchor - offset_steps g p m * step * 1000000 < dt_limit"
    using assms by (auto simp: in_set_conv_nth nth_enumerate_eq)
  then have "plan_updates g step anchor matched =
      Inr (map (\<lambda>(p, m). set_new_created_at
                       (ensure_millis_precision anchor - offset_steps g p m * step * 1000000) m)
                  (enumerate 0 (sort_key sc_index matched)))"
    unfolding plan_updates_char by (rule if_P)
  then show ?thesis by (rule exI)
qed

lemma sc_index_set_new [simp]: "sc_index (set_new_created_at dt m) = sc_index m"
  by (simp add: set_new_created_at_def)

lemma new_created_at_set_new [simp]: "new_created_at (set_new_created_at dt m) = Some dt"
  by (simp add: set_new_created_at_def)

lemma plan_updates_sc_index:
  assumes "plan_updates g step anchor matched = Inr planned"
  shows "map sc_index planned = map sc_index (sort_key sc_index matched)"
proof (rule nth_equalityI)
  show "length (map sc_index planned) = length (map sc_index (sort_key sc_index matched))"
    by (simp add: plan_updates_Inr(1) [OF assms])
next
  fix i assume "i < length (map sc_index planned)"
  then have "i < length matched" by (simp add: plan_updates_Inr(1) [OF assms])
  then show "map sc_index planned ! i = map sc_index (sort_key sc_index matched) ! i"
    by (simp add: plan_updates_Inr [OF assms])
qed

lemma plan_updates_sorted:
  assumes "plan_updates g step anchor matched = Inr planned"
  shows "sorted (map sc_index planned)"
  by (simp only: plan_updates_sc_index [OF assms] sorted_sort_key)

lemma plan_updates_new:
  assumes "plan_updates g step anchor matched = Inr planned" and "p < length planned"
  shows "new_created_at (planned ! p) =
           Some (ensure_millis_precision anchor
                   - (if g then sc_index (planned ! p) - 1 else int p) * step * 1000000)"
proof -
  have p: "p < length matched" using assms by (simp add: plan_updates_Inr(1))
  have "sc_index (planned ! p) = sc_index (sort_key sc_index matched ! p)"
    by (simp add: plan_updates_Inr(2) [OF assms(1) p])
  then show ?thesis
    by (simp add: plan_updates_Inr(2) [OF assms(1) p] offset_steps_def)
qed

section \<open>The index and the matcher against the specification's wording\<close>

lemma build_likes_loop_char:
  "build_likes_loop L likes (by_exact, by_norm) =
     (\<lambda>t. case by_exact t of Some e \<Rightarrow> Some e | None \<Rightarrow> spec_exact_map likes t,
      \<lambda>k. case by_norm k of Some e \<Rightarrow> Some e | None \<Rightarrow> spec_norm_map L likes k)"
proof (induction likes arbitrary: by_exact by_norm)
  case Nil
  show ?case
    by (auto simp: spec_exact_map_def spec_norm_map_def fun_eq_iff split: option.splits)
next
  case (Cons item likes)
  show ?case
    by (auto simp: Cons.IH Let_def setdefault_def spec_exact_map_def spec_norm_map_def
        fun_eq_iff split: option.splits)
qed

lemma build_likes_maps_char:
  "build_likes_maps L likes = (spec_exact_map likes, spec_norm_map L likes)"
  by (simp add: build_likes_maps_def build_likes_loop_char)

lemma find_append_Some:
  "List.find P xs = Some x \<Longrightarrow> List.find P (xs @ ys) = Some x"
  by (induction xs) (auto split: if_splits)

lemma find_sorted_least:
  assumes "sorted (map f xs)" and "List.find P xs = Some x" and "y \<in> set xs" and "P y"
  shows "f x \<le> f y"
  using assms
proof (induction xs)
  case Nil
  then show ?case by simp
next
  case (Cons a xs)
  then show ?case by (auto split: if_splits)
qed

lemma exact_pass_spec: "exact_pass d cs = spec_lookup d cs"
  by (induction cs) (auto simp: spec_lookup_def split: option.splits)

lemma norm_pass_spec:
  "d [] = None \<Longrightarrow> norm_pass L d cs = spec_lookup d (map (normalize_title L) cs)"
  by (induction cs) (auto simp: spec_lookup_def Let_def split: option.splits)

lemma spec_lookup_dup: "spec_lookup d [k, k] = spec_lookup d [k]"
  by (simp add: spec_lookup_def)

lemma spec_lookup_None: "spec_lookup d ks = None \<longleftrightarrow> (\<forall>k \<in> set ks. d k = None)"
  by (induction ks) (auto simp: spec_lookup_def split: option.splits)

lemma candidates_absent:
  "or_empty (Title r) = [] \<Longrightarrow>
   find_local_title L r = path_stem L (FolderPath r)
   \<and> spec_candidates L r = [path_stem L (FolderPath r)]"
  by (cases "Title r") (simp_all add: find_local_title_def spec_candidates_def or_empty_def)

lemma candidates_present:
  "or_empty (Title r) \<noteq> [] \<Longrightarrow>
   spec_candidates L r = [find_local_title L r, path_stem L (FolderPath r)]"
  by (cases "Title r") (simp_all add: find_local_title_def spec_candidates_def or_empty_def)

lemma candidates_lookup:
  "spec_lookup d (map f [find_local_title L r, path_stem L (FolderPath r)])
     = spec_lookup d (map f (spec_candidates L r))"
proof (cases "or_empty (Title r) = []")
  case True
  show ?thesis by (simp add: candidates_absent [OF True] spec_lookup_dup)
next
  case False
  show ?thesis by (simp only: candidates_present [OF False])
qed

lemma candidates_spec:
  "exact_pass d [find_local_title L r, path_stem L (FolderPath r)] = spec_lookup d (spec_candidates L r)"
  using candidates_lookup [of d "\<lambda>c. c" L r] by (simp only: exact_pass_spec list.map_ident)

lemma candidates_norm_spec:
  assumes "d [] = None"
  shows "norm_pass L d [find_local_title L r, path_stem L (FolderPath r)] =
     spec_lookup d (map (normalize_title L) (spec_candidates L r))"
  by (simp only: norm_pass_spec [of d, OF assms] candidates_lookup)

lemma match_row_spec:
  assumes "by_norm [] = None"
  shows "outcome_of (match_row L by_exact by_norm r) = spec_outcome (spec_match L by_exact by_norm r)"
  by (simp add: match_row_def Let_def candidates_spec candidates_norm_spec [of by_norm, OF assms]
      spec_match_def outcome_of_def spec_outcome_def split: option.splits
      del: exact_pass.simps norm_pass.simps)

lemma match_loop_char:
  "match_loop L E N rows (ms, us) =
     (ms @ map projr (filter (\<lambda>x. \<not> isl x) (map (match_row L E N) rows)),
      us @ map projl (filter isl (map (match_row L E N) rows)))"
proof (induction rows arbitrary: ms us)
  case Nil
  show ?case by simp
next
  case (Cons r rows)
  show ?case by (cases "match_row L E N r") (simp_all add: Cons.IH)
qed

lemma match_row_Inr_row: "match_row L E N r = Inr m \<Longrightarrow> row m = r \<and> file_path m = FolderPath r"
  by (auto simp: match_row_def Let_def split: option.splits)

lemma match_row_Inl:
  "match_row L E N r = Inl u \<Longrightarrow>
     u = \<lparr> u_file_path = FolderPath r, u_local_title = find_local_title L r,
           reason = ustr ''not-found-in-likes'' \<rparr>"
  by (auto simp: match_row_def Let_def split: option.splits)

lemma candidates_set:
  "set [find_local_title L r, path_stem L (FolderPath r)] = set (spec_candidates L r)"
proof (cases "or_empty (Title r) = []")
  case True
  show ?thesis by (simp add: candidates_absent [OF True])
next
  case False
  show ?thesis by (simp only: candidates_present [OF False])
qed

lemma norm_pass_None:
  "(\<forall>c \<in> set cs. d (normalize_title L c) = None) \<Longrightarrow> norm_pass L d cs = None"
  by (induction cs) (simp_all add: Let_def)

lemma match_row_miss:
  assumes "\<not> spec_hits L E N r"
  shows "match_row L E N r =
     Inl \<lparr> u_file_path = FolderPath r, u_local_title = find_local_title L r,
           reason = ustr ''not-found-in-likes'' \<rparr>"
proof -
  let ?cs = "[find_local_title L r, path_stem L (FolderPath r)]"
  have none: "\<forall>c \<in> set ?cs. E c = None \<and> N (normalize_title L c) = None"
    using assms unfolding spec_hits_def candidates_set [symmetric] by blast
  have e: "exact_pass E ?cs = None"
    unfolding exact_pass_spec spec_lookup_None using none by blast
  have n: "norm_pass L N ?cs = None"
    using none by (intro norm_pass_None) blast
  show ?thesis by (simp add: match_row_def Let_def e n del: exact_pass.simps norm_pass.simps)
qed

lemma built_norm_empty: "snd (build_likes_maps L likes) [] = None"
  by (simp add: build_likes_maps_char spec_norm_map_def)

section \<open>Anchor resolution and the likes list\<close>

lemma map_filter_all_None: "(\<forall>x \<in> set xs. f x = None) \<Longrightarrow> List.map_filter f xs = []"
  by (induction xs) (simp_all add: List.map_filter_simps)

lemma resolve_anchor_no_timestamps:
  assumes "\<forall>m \<in> set matched. old_created_at m = None"
  shows "resolve_anchor sp now [] matched = Inl ValueError"
  by (simp add: resolve_anchor_def py_max_def map_filter_all_None [OF assms])

lemma resolve_anchor_ignores_clock:
  "resolve_anchor sp now a matched = resolve_anchor sp now' a matched"
  by (simp add: resolve_anchor_def split: sum.splits)


section \<open>Sample data evaluated\<close>

lemma ex_anchor_value: "ex_anchor = 63839664000000000"
  by (simp add: ex_anchor_def mk_datetime_def ymd2ord_def days_before_year_def
      days_before_month_def days_in_month_def is_leap_def upto.simps)

lemma ensure_ex_anchor: "ensure_millis_precision ex_anchor = 63839664000900000"
  by (simp add: ex_anchor_value ensure_millis_precision_def microsecond_def replace_microsecond_def)

lemma ex_plan_gap:
  "plan_updates True 2 ex_anchor [ex_match ''/b'' 4, ex_match ''/a'' 1] =
     Inr [set_new_created_at 63839664000900000 (ex_match ''/a'' 1),
          set_new_created_at 63839663994900000 (ex_match ''/b'' 4)]"
  by (simp add: plan_updates_def ex_anchor_value ex_match_def offset_steps_def
      dt_sub_seconds_def dt_limit_def ensure_millis_precision_def microsecond_def
      replace_microsecond_def)

lemma ex_plan_dense:
  "plan_updates False 1 ex_anchor [ex_match ''/a'' 1, ex_match ''/d'' 4] =
     Inr [set_new_created_at 63839664000900000 (ex_match ''/a'' 1),
          set_new_created_at 63839663999900000 (ex_match ''/d'' 4)]"
  by (simp add: plan_updates_def ex_anchor_value ex_match_def offset_steps_def
      dt_sub_seconds_def dt_limit_def ensure_millis_precision_def microsecond_def
      replace_microsecond_def)

lemmas cpython_eval = normalize_title_def cpython_def nfkc_fragment_def nfkc_decompose_def
  line_below_def str_replace_def str_strip_def lower_cp_def isspace_cp_def posix_stem_def posix_name_def
  str_rfind_def ustr_def Let_def

lemma ex_matching:
  "match_rows_to_likes cpython ex_rows (fst (build_likes_maps cpython ex_likes))
       (snd (build_likes_maps cpython ex_likes)) =
     ([ex_matched ''/music/t1.mp3'' ''b'' 2 ''B'' ''normalized'',
       ex_matched ''/music/t2.mp3'' ''A'' 1 ''A'' ''exact'',
       ex_matched ''/music/t3.mp3'' ''d'' 4 ''D'' ''normalized''],
      [\<lparr> u_file_path = ustr ''/music/t4.mp3'', u_local_title = ustr ''Z'',
         reason = ustr ''not-found-in-likes'' \<rparr>])"
  by (simp add: match_rows_to_likes_def match_row_def ex_rows_def ex_row_def ex_likes_def
      ex_like_def ex_matched_def build_likes_maps_def setdefault_def find_local_title_def
      or_empty_def cpython_eval)

lemma ex_fetch:
  "fetch_likes cpython \<lparr> yt_found = True, yt_returncode = 0, yt_payload = Some ex_entries \<rparr>
     = Inr ex_likes"
  by (simp add: fetch_likes_def ex_entries_def ex_entry_def ex_likes_def ex_like_def
      or_empty_def or_else_empty_def cpython_def str_strip_def isspace_cp_def ustr_def)

lemma ex_times:
  "mk_datetime 2024 1 1 0 0 0 900000 = 63839664000900000"
  "mk_datetime 2023 12 31 23 59 59 900000 = 63839663999900000"
  "mk_datetime 2023 12 31 23 59 58 900000 = 63839663998900000"
  "mk_datetime 2023 12 31 23 59 57 900000 = 63839663997900000"
  by (simp_all add: mk_datetime_def ymd2ord_def days_before_year_def
      days_before_month_def days_in_month_def is_leap_def upto.simps)

lemma plan_eval:
  "plan_updates g 1 ex_anchor
     [ex_matched ''/music/t1.mp3'' ''b'' 2 ''B'' ''normalized'',
      ex_matched ''/music/t2.mp3'' ''A'' 1 ''A'' ''exact'',
      ex_matched ''/music/t3.mp3'' ''d'' 4 ''D'' ''normalized''] =
   Inr [set_new_created_at 63839664000900000 (ex_matched ''/music/t2.mp3'' ''A'' 1 ''A'' ''exact''),
        set_new_created_at 63839663999900000 (ex_matched ''/music/t1.mp3'' ''b'' 2 ''B'' ''normalized''),
        set_new_created_at (if g then 63839663997900000 else 63839663998900000)
          (ex_matched ''/music/t3.mp3'' ''d'' 4 ''D'' ''normalized'')]"
  by (simp add: plan_updates_def ex_anchor_value ex_matched_def offset_steps_def
      dt_sub_seconds_def dt_limit_def ensure_millis_precision_def microsecond_def
      replace_microsecond_def)

lemma ex_miss:
  "match_rows_to_likes cpython [ex_row ''/music/t4.mp3'' ''Z''] Map.empty Map.empty =
     ([], [\<lparr> u_file_path = ustr ''/music/t4.mp3'', u_local_title = ustr ''Z'',
              reason = ustr ''not-found-in-likes'' \<rparr>])"
  by (simp add: match_rows_to_likes_def match_row_def ex_row_def find_local_title_def
      or_empty_def cpython_eval)

lemma ex_row_A:
  "match_row cpython (fst (build_likes_maps cpython ex_likes))
     (snd (build_likes_maps cpython ex_likes)) (ex_row ''/music/t2.mp3'' ''A'')
   = Inr (ex_matched ''/music/t2.mp3'' ''A'' 1 ''A'' ''exact'')"
  by (simp add: match_row_def ex_row_def ex_likes_def
      ex_like_def ex_matched_def build_likes_maps_def setdefault_def find_local_title_def
      or_empty_def cpython_eval)

lemma ex_norm_a:
  "snd (build_likes_maps cpython ex_likes) (normalize_title cpython (ustr ''A''))
     = Some (ex_like 1 ''A'')"
  by (simp add: ex_likes_def ex_like_def build_likes_maps_def setdefault_def cpython_eval)

lemma ex_dup_index:
  "fst (build_likes_maps cpython (ex_likes @ [ex_like 5 ''A'', ex_like 6 ''a''])) (ustr ''A'')
     = Some (ex_like 1 ''A'')"
  "snd (build_likes_maps cpython (ex_likes @ [ex_like 5 ''A'', ex_like 6 ''a''])) (ustr ''a'')
     = Some (ex_like 1 ''A'')"
  "fst (build_likes_maps cpython ex_likes) (ustr ''A'') = Some (ex_like 1 ''A'')"
  "snd (build_likes_maps cpython ex_likes) (ustr ''a'') = Some (ex_like 1 ''A'')"
  "sorted (map index ex_likes)"
  by (simp_all add: ex_likes_def ex_like_def build_likes_maps_def setdefault_def cpython_eval)

lemma ex_keys:
  "normalize_title cpython [70, 111, 111, 65306, 66, 97, 114] = ustr ''foo:bar''"
  "normalize_title cpython (ustr ''foo:bar'') = ustr ''foo:bar''"
  "normalize_title cpython (ustr ''  FOO:  BAR '') = ustr ''foo: bar''"
  by (simp_all add: cpython_eval)

lemma normalize_title_not_idempotent:
  "normalize_title cpython [72, 817] = [104, 817]"
  "normalize_title cpython (normalize_title cpython [72, 817]) = [7830]"
  "list_all in_fragment [72, 817]"
  by (simp_all add: cpython_eval in_fragment_def)

lemma ex_line_below:
  "normalize_title cpython [104, 817] = [7830]"
  "uc_nfkc cpython [7830] = [7830]"
  "uc_lower cpython [7830] = [7830]"
  "uc_isspace cpython 32"
  by (simp_all add: cpython_eval)

section \<open>Timestamp assignment\<close>

text \<open>
  C1. Whenever the assignment of lines 342 to 351 completes, the result lists the
  matched records in ascending order of \<open>sc_index\<close>, and the record at position \<open>p\<close>
  of that order gets the timestamp \<open>ensure_millis_precision anchor\<close> minus
  \<open>offset_steps\<close> times \<open>step\<close> seconds, where \<open>offset_steps\<close> is \<open>p\<close> without
  \<^verbatim>\<open>--use-like-index-offset\<close> (dense) and the record's \<open>sc_index - 1\<close> with it (rank
  gap). It does complete whenever every such timestamp is a \<^verbatim>\<open>datetime\<close> of Python;
  otherwise it raises \<^verbatim>\<open>OverflowError\<close>.
\<close>

theorem assigned_timestamp_formula:
  "(plan_updates g step anchor matched = Inr planned \<and> p < length matched \<longrightarrow>
      length planned = length matched
      \<and> sorted (map sc_index planned)
      \<and> planned ! p =
          set_new_created_at
            (ensure_millis_precision anchor
               - (if g then sc_index (planned ! p) - 1 else int p) * step * 1000000)
            (sort_key sc_index matched ! p)
      \<and> new_created_at (planned ! p) =
          Some (ensure_millis_precision anchor
                  - (if g then sc_index (planned ! p) - 1 else int p) * step * 1000000))
   \<and> ((\<forall>q < length matched.
          0 \<le> ensure_millis_precision anchor
                - (if g then sc_index (sort_key sc_index matched ! q) - 1 else int q)
                    * step * 1000000
          \<and> ensure_millis_precision anchor
                - (if g then sc_index (sort_key sc_index matched ! q) - 1 else int q)
                    * step * 1000000 < dt_limit)
        \<longrightarrow> (\<exists>planned. plan_updates g step anchor matched = Inr planned))"
proof (intro conjI impI)
  assume a: "plan_updates g step anchor matched = Inr planned \<and> p < length matched"
  then have r: "plan_updates g step anchor matched = Inr planned" and p: "p < length matched"
    by simp_all
  have p': "p < length planned" using p by (simp add: plan_updates_Inr(1) [OF r])
  show "length planned = length matched" by (rule plan_updates_Inr(1) [OF r])
  show "sorted (map sc_index planned)" by (rule plan_updates_sorted [OF r])
  have "sc_index (planned ! p) = sc_index (sort_key sc_index matched ! p)"
    by (simp add: plan_updates_Inr(2) [OF r p])
  then show "planned ! p =
          set_new_created_at
            (ensure_millis_precision anchor
               - (if g then sc_index (planned ! p) - 1 else int p) * step * 1000000)
            (sort_key sc_index matched ! p)"
    using plan_updates_Inr(2) [OF r p] by (simp add: offset_steps_def)
  show "new_created_at (planned ! p) =
          Some (ensure_millis_precision anchor
                  - (if g then sc_index (planned ! p) - 1 else int p) * step * 1000000)"
    by (rule plan_updates_new [OF r p'])
next
  assume "\<forall>q < length matched.
          0 \<le> ensure_millis_precision anchor
                - (if g then sc_index (sort_key sc_index matched ! q) - 1 else int q)
                    * step * 1000000
          \<and> ensure_millis_precision anchor
                - (if g then sc_index (sort_key sc_index matched ! q) - 1 else int q)
                    * step * 1000000 < dt_limit"
  then show "\<exists>planned. plan_updates g step anchor matched = Inr planned"
    by (intro plan_updates_total) (simp add: offset_steps_def)
qed

theorem assigned_timestamp_formula_witness:
  "plan_updates True 2 ex_anchor [ex_match ''/b'' 4, ex_match ''/a'' 1] =
     Inr [set_new_created_at 63839664000900000 (ex_match ''/a'' 1),
          set_new_created_at 63839663994900000 (ex_match ''/b'' 4)]
   \<and> new_created_at (set_new_created_at 63839663994900000 (ex_match ''/b'' 4)) =
       Some (ensure_millis_precision ex_anchor - (4 - 1) * 2 * 1000000)"
  using ex_plan_gap
    assigned_timestamp_formula [of True 2 ex_anchor "[ex_match ''/b'' 4, ex_match ''/a'' 1]"
      "[set_new_created_at 63839664000900000 (ex_match ''/a'' 1),
        set_new_created_at 63839663994900000 (ex_match ''/b'' 4)]" 1]
  by (simp add: ensure_ex_anchor)

text \<open>
  C2, as the code has it. With a step of at least one second and a completed
  assignment: of two matched records with different \<open>sc_index\<close> the one with the
  larger \<open>sc_index\<close> gets the strictly earlier timestamp, in both modes. With
  \<^verbatim>\<open>--use-like-index-offset\<close> every record of \<open>sc_index\<close> 1 gets exactly
  \<open>ensure_millis_precision anchor\<close>. Without it (dense) the first record of the sorted
  order gets \<open>ensure_millis_precision anchor\<close>; a record of \<open>sc_index\<close> 1 is that
  record when every other matched record has a larger \<open>sc_index\<close>.
\<close>

theorem rank_order_of_timestamps:
  assumes r: "plan_updates g step anchor matched = Inr planned" and step: "1 \<le> step"
  shows
    "(\<forall>i < length planned. \<forall>j < length planned.
        sc_index (planned ! i) < sc_index (planned ! j) \<longrightarrow>
        (\<exists>ti tj. new_created_at (planned ! i) = Some ti \<and> new_created_at (planned ! j) = Some tj
                  \<and> tj < ti))
     \<and> (g \<longrightarrow> (\<forall>i < length planned. sc_index (planned ! i) = 1 \<longrightarrow>
                  new_created_at (planned ! i) = Some (ensure_millis_precision anchor)))
     \<and> (\<not> g \<longrightarrow> planned \<noteq> [] \<longrightarrow>
            new_created_at (planned ! 0) = Some (ensure_millis_precision anchor))
     \<and> (\<not> g \<longrightarrow> (\<forall>i < length planned.
            sc_index (planned ! i) = 1
            \<and> (\<forall>j < length planned. j \<noteq> i \<longrightarrow> 1 < sc_index (planned ! j)) \<longrightarrow>
            new_created_at (planned ! i) = Some (ensure_millis_precision anchor)))"
proof (intro conjI allI impI)
  fix i j
  assume i: "i < length planned" and j: "j < length planned"
    and lt: "sc_index (planned ! i) < sc_index (planned ! j)"
  let ?oi = "if g then sc_index (planned ! i) - 1 else int i"
  let ?oj = "if g then sc_index (planned ! j) - 1 else int j"
  have srt: "sorted (map sc_index planned)" by (rule plan_updates_sorted [OF r])
  have "i < j"
  proof (rule ccontr)
    assume "\<not> i < j"
    then have "j \<le> i" by simp
    then have "map sc_index planned ! j \<le> map sc_index planned ! i"
      using srt i by (simp add: sorted_iff_nth_mono del: nth_map)
    then show False using lt i j by simp
  qed
  then have "?oi < ?oj" using lt by simp
  then have "?oi * step < ?oj * step" using step by (simp add: mult_strict_right_mono)
  then have "ensure_millis_precision anchor - ?oj * step * 1000000
           < ensure_millis_precision anchor - ?oi * step * 1000000"
    by simp
  then show "\<exists>ti tj. new_created_at (planned ! i) = Some ti \<and> new_created_at (planned ! j) = Some tj \<and> tj < ti"
    by (simp only: plan_updates_new [OF r i] plan_updates_new [OF r j]) blast
next
  fix i assume "g" and "i < length planned" and "sc_index (planned ! i) = 1"
  then show "new_created_at (planned ! i) = Some (ensure_millis_precision anchor)"
    by (simp add: plan_updates_new [OF r])
next
  assume "\<not> g" and "planned \<noteq> []"
  then show "new_created_at (planned ! 0) = Some (ensure_millis_precision anchor)"
    by (simp add: plan_updates_new [OF r])
next
  fix i
  assume g: "\<not> g" and i: "i < length planned"
    and one: "sc_index (planned ! i) = 1
            \<and> (\<forall>j < length planned. j \<noteq> i \<longrightarrow> 1 < sc_index (planned ! j))"
  have srt: "sorted (map sc_index planned)" by (rule plan_updates_sorted [OF r])
  have "i = 0"
  proof (rule ccontr)
    assume n: "i \<noteq> 0"
    have len0: "0 < length planned" using i by auto
    have "map sc_index planned ! 0 \<le> map sc_index planned ! i"
      using srt i by (simp add: sorted_iff_nth_mono del: nth_map)
    then have le: "sc_index (planned ! 0) \<le> sc_index (planned ! i)"
      using i len0 by simp
    have "0 \<noteq> i" using n by simp
    then have "1 < sc_index (planned ! 0)" using one len0 by blast
    then show False using le one by simp
  qed
  then show "new_created_at (planned ! i) = Some (ensure_millis_precision anchor)"
    using g i by (simp add: plan_updates_new [OF r])
qed

theorem rank_order_of_timestamps_witness:
  "plan_updates False 1 ex_anchor [ex_match ''/a'' 1, ex_match ''/d'' 4] =
     Inr [set_new_created_at 63839664000900000 (ex_match ''/a'' 1),
          set_new_created_at 63839663999900000 (ex_match ''/d'' 4)]
   \<and> (1::int) \<le> 1
   \<and> ensure_millis_precision ex_anchor = 63839664000900000
   \<and> (63839663999900000::int) < 63839664000900000"
  using ex_plan_dense ensure_ex_anchor
    rank_order_of_timestamps [of False 1 ex_anchor "[ex_match ''/a'' 1, ex_match ''/d'' 4]"
      "[set_new_created_at 63839664000900000 (ex_match ''/a'' 1),
        set_new_created_at 63839663999900000 (ex_match ''/d'' 4)]"]
  by simp


text \<open>
  C2 as stated fails in dense mode when two rows match the entry of rank 1: the
  second of them is at position 1 and gets the anchor minus one step.
\<close>

theorem rank_one_dense_counterexample:
  "plan_updates False 1 ex_anchor [ex_match ''/a'' 1, ex_match ''/a2'' 1] =
     Inr [set_new_created_at 63839664000900000 (ex_match ''/a'' 1),
          set_new_created_at 63839663999900000 (ex_match ''/a2'' 1)]
   \<and> sc_index (set_new_created_at 63839663999900000 (ex_match ''/a2'' 1)) = 1
   \<and> new_created_at (set_new_created_at 63839663999900000 (ex_match ''/a2'' 1))
        \<noteq> Some (ensure_millis_precision ex_anchor)"
  by (simp add: plan_updates_def ex_anchor_value ex_match_def offset_steps_def
      dt_sub_seconds_def dt_limit_def ensure_millis_precision_def microsecond_def
      replace_microsecond_def set_new_created_at_def)

text \<open>
  C10. Every timestamp that a completed assignment writes has the microsecond field
  of \<open>ensure_millis_precision anchor\<close>, which is not zero, and is 900000 when the
  anchor falls on a whole second. \<open>ensure_millis_precision\<close> never returns a whole
  second, returns 900000 microseconds on a whole second, and is idempotent.
\<close>

theorem assigned_timestamps_subsecond:
  "(plan_updates g step anchor matched = Inr planned \<longrightarrow>
      (\<forall>m \<in> set planned. \<exists>dt. new_created_at m = Some dt
          \<and> microsecond dt = microsecond (ensure_millis_precision anchor)
          \<and> microsecond dt \<noteq> 0
          \<and> (microsecond anchor = 0 \<longrightarrow> microsecond dt = 900000)))
   \<and> (microsecond dt = 0 \<longrightarrow> microsecond (ensure_millis_precision dt) = 900000)
   \<and> microsecond (ensure_millis_precision dt) \<noteq> 0
   \<and> ensure_millis_precision (ensure_millis_precision dt) = ensure_millis_precision dt"
proof (intro conjI impI ballI)
  fix m
  assume r: "plan_updates g step anchor matched = Inr planned" and m: "m \<in> set planned"
  from m obtain p where p: "p < length planned" and mp: "m = planned ! p"
    by (auto simp: in_set_conv_nth)
  let ?t = "ensure_millis_precision anchor
              - (if g then sc_index (planned ! p) - 1 else int p) * step * 1000000"
  have new: "new_created_at m = Some ?t"
    unfolding mp by (rule plan_updates_new [OF r p])
  have "?t = ensure_millis_precision anchor
              - ((if g then sc_index (planned ! p) - 1 else int p) * step) * 1000000"
    by simp
  then have us: "microsecond ?t = microsecond (ensure_millis_precision anchor)"
    by (simp only: microsecond_shift)
  show "\<exists>dt. new_created_at m = Some dt
          \<and> microsecond dt = microsecond (ensure_millis_precision anchor)
          \<and> microsecond dt \<noteq> 0
          \<and> (microsecond anchor = 0 \<longrightarrow> microsecond dt = 900000)"
    using new us microsecond_ensure [of anchor] microsecond_ensure_whole [of anchor]
    by (intro exI [of _ ?t]) simp
next
  assume "microsecond dt = 0"
  then show "microsecond (ensure_millis_precision dt) = 900000"
    by (rule microsecond_ensure_whole)
next
  show "microsecond (ensure_millis_precision dt) \<noteq> 0" by (rule microsecond_ensure)
  show "ensure_millis_precision (ensure_millis_precision dt) = ensure_millis_precision dt"
    by (rule ensure_idem)
qed

theorem assigned_timestamps_subsecond_witness:
  "plan_updates False 1 ex_anchor [ex_match ''/a'' 1, ex_match ''/d'' 4] =
     Inr [set_new_created_at 63839664000900000 (ex_match ''/a'' 1),
          set_new_created_at 63839663999900000 (ex_match ''/d'' 4)]
   \<and> microsecond ex_anchor = 0
   \<and> microsecond 63839664000900000 = 900000
   \<and> microsecond 63839663999900000 = 900000"
  using ex_plan_dense
    assigned_timestamps_subsecond [of False 1 ex_anchor "[ex_match ''/a'' 1, ex_match ''/d'' 4]"
      "[set_new_created_at 63839664000900000 (ex_match ''/a'' 1),
        set_new_created_at 63839663999900000 (ex_match ''/d'' 4)]" ex_anchor]
  by (simp add: ex_anchor_value microsecond_def)


section \<open>End-to-end example\<close>

text \<open>
  C3. On the reference list \<open>A\<close>, \<open>B\<close>, \<open>C\<close>, \<open>D\<close> (ranks 1 to 4) and the rows titled
  \<open>b\<close>, \<open>A\<close>, \<open>d\<close>, \<open>Z\<close>, the index built by \<open>build_likes_maps\<close> and the matcher give
  \<open>b\<close> to \<open>B\<close> (rank 2, normalized), \<open>A\<close> to \<open>A\<close> (rank 1, exact), \<open>d\<close> to \<open>D\<close> (rank 4,
  normalized) and leave \<open>Z\<close> unmatched. With the anchor 2024-01-01T00:00:00 and a step
  of one second, the dense assignment stores in \<^verbatim>\<open>new_created_at\<close>, and writes to the
  row's \<^verbatim>\<open>created_at\<close>, 2024-01-01T00:00:00.900000 for \<open>A\<close>,
  2023-12-31T23:59:59.900000 for \<open>B\<close> and 2023-12-31T23:59:58.900000 for \<open>D\<close>; the
  rank-gap assignment gives \<open>A\<close> and \<open>B\<close> the same and \<open>D\<close>
  2023-12-31T23:59:57.900000. Apart from the two timestamps the planned records are
  the matched ones, in the order of their ranks.
\<close>

theorem end_to_end_example:
  "match_rows_to_likes cpython ex_rows (fst (build_likes_maps cpython ex_likes))
       (snd (build_likes_maps cpython ex_likes)) =
     ([ex_matched ''/music/t1.mp3'' ''b'' 2 ''B'' ''normalized'',
       ex_matched ''/music/t2.mp3'' ''A'' 1 ''A'' ''exact'',
       ex_matched ''/music/t3.mp3'' ''d'' 4 ''D'' ''normalized''],
      [\<lparr> u_file_path = ustr ''/music/t4.mp3'', u_local_title = ustr ''Z'',
         reason = ustr ''not-found-in-likes'' \<rparr>])
   \<and> map_sum id (map planned_view)
        (plan_updates False 1 (mk_datetime 2024 1 1 0 0 0 0)
           [ex_matched ''/music/t1.mp3'' ''b'' 2 ''B'' ''normalized'',
            ex_matched ''/music/t2.mp3'' ''A'' 1 ''A'' ''exact'',
            ex_matched ''/music/t3.mp3'' ''d'' 4 ''D'' ''normalized'']) =
     Inr [(ustr ''/music/t2.mp3'', ustr ''A'', 1,
             Some (mk_datetime 2024 1 1 0 0 0 900000),
             Some (mk_datetime 2024 1 1 0 0 0 900000)),
          (ustr ''/music/t1.mp3'', ustr ''B'', 2,
             Some (mk_datetime 2023 12 31 23 59 59 900000),
             Some (mk_datetime 2023 12 31 23 59 59 900000)),
          (ustr ''/music/t3.mp3'', ustr ''D'', 4,
             Some (mk_datetime 2023 12 31 23 59 58 900000),
             Some (mk_datetime 2023 12 31 23 59 58 900000))]
   \<and> map_sum id (map planned_view)
        (plan_updates True 1 (mk_datetime 2024 1 1 0 0 0 0)
           [ex_matched ''/music/t1.mp3'' ''b'' 2 ''B'' ''normalized'',
            ex_matched ''/music/t2.mp3'' ''A'' 1 ''A'' ''exact'',
            ex_matched ''/music/t3.mp3'' ''d'' 4 ''D'' ''normalized'']) =
     Inr [(ustr ''/music/t2.mp3'', ustr ''A'', 1,
             Some (mk_datetime 2024 1 1 0 0 0 900000),
             Some (mk_datetime 2024 1 1 0 0 0 900000)),
          (ustr ''/music/t1.mp3'', ustr ''B'', 2,
             Some (mk_datetime 2023 12 31 23 59 59 900000),
             Some (mk_datetime 2023 12 31 23 59 59 900000)),
          (ustr ''/music/t3.mp3'', ustr ''D'', 4,
             Some (mk_datetime 2023 12 31 23 59 57 900000),
             Some (mk_datetime 2023 12 31 23 59 57 900000))]
   \<and> map_sum id (map (\<lambda>m. m\<lparr> new_created_at := None, row := (row m)\<lparr> created_at := None \<rparr> \<rparr>))
        (plan_updates False 1 (mk_datetime 2024 1 1 0 0 0 0)
           [ex_matched ''/music/t1.mp3'' ''b'' 2 ''B'' ''normalized'',
            ex_matched ''/music/t2.mp3'' ''A'' 1 ''A'' ''exact'',
            ex_matched ''/music/t3.mp3'' ''d'' 4 ''D'' ''normalized'']) =
     Inr [ex_matched ''/music/t2.mp3'' ''A'' 1 ''A'' ''exact'',
          ex_matched ''/music/t1.mp3'' ''b'' 2 ''B'' ''normalized'',
          ex_matched ''/music/t3.mp3'' ''d'' 4 ''D'' ''normalized'']
   \<and> map_sum id (map (\<lambda>m. m\<lparr> new_created_at := None, row := (row m)\<lparr> created_at := None \<rparr> \<rparr>))
        (plan_updates True 1 (mk_datetime 2024 1 1 0 0 0 0)
           [ex_matched ''/music/t1.mp3'' ''b'' 2 ''B'' ''normalized'',
            ex_matched ''/music/t2.mp3'' ''A'' 1 ''A'' ''exact'',
            ex_matched ''/music/t3.mp3'' ''d'' 4 ''D'' ''normalized'']) =
     Inr [ex_matched ''/music/t2.mp3'' ''A'' 1 ''A'' ''exact'',
          ex_matched ''/music/t1.mp3'' ''b'' 2 ''B'' ''normalized'',
          ex_matched ''/music/t3.mp3'' ''d'' 4 ''D'' ''normalized'']"
proof -
  have v: "planned_view (set_new_created_at dt (ex_matched p t k st mode))
             = (ustr p, ustr st, k, Some dt, Some dt)" for dt p t k st mode
    by (simp add: planned_view_def set_new_created_at_def ex_matched_def)
  have u: "(set_new_created_at dt (ex_matched p t k st mode))
             \<lparr> new_created_at := None,
               row := (row (set_new_created_at dt (ex_matched p t k st mode)))
                        \<lparr> created_at := None \<rparr> \<rparr>
           = ex_matched p t k st mode" for dt p t k st mode
    by (simp add: set_new_created_at_def ex_matched_def ex_row_def)
  show ?thesis
    by (simp only: ex_matching ex_times ex_anchor_def [symmetric] plan_eval if_True if_False
        map_sum.simps list.map v u id_apply simp_thms)
qed

theorem end_to_end_example_witness:
  "map_sum id (map planned_view)
        (plan_updates True 1 ex_anchor
           [ex_matched ''/music/t1.mp3'' ''b'' 2 ''B'' ''normalized'',
            ex_matched ''/music/t2.mp3'' ''A'' 1 ''A'' ''exact'',
            ex_matched ''/music/t3.mp3'' ''d'' 4 ''D'' ''normalized'']) =
     Inr [(ustr ''/music/t2.mp3'', ustr ''A'', 1,
             Some 63839664000900000, Some 63839664000900000),
          (ustr ''/music/t1.mp3'', ustr ''B'', 2,
             Some 63839663999900000, Some 63839663999900000),
          (ustr ''/music/t3.mp3'', ustr ''D'', 4,
             Some 63839663997900000, Some 63839663997900000)]"
  using end_to_end_example by (simp only: ex_times ex_anchor_def [symmetric])

section \<open>Row matcher\<close>

text \<open>
  C4, as the code has it. \<open>match_rows_to_likes\<close> runs \<open>match_row\<close> once on every row,
  in order, and puts the result in exactly one of its two lists: \<^verbatim>\<open>matched\<close> holds the
  rows that matched and \<^verbatim>\<open>unmatched\<close> the paths of the others, so the two lists
  together have one element for each row. A row none of whose candidates is a key of
  the exact map or normalizes to a key of the normalized map is unmatched, and the
  reason of every unmatched record is the string \<^verbatim>\<open>not-found-in-likes\<close>.
\<close>

theorem match_partitions_rows:
  assumes "match_rows_to_likes L rows by_exact by_norm = (matched, unmatched)"
  shows "matched = map projr (filter (\<lambda>x. \<not> isl x) (map (match_row L by_exact by_norm) rows))
     \<and> unmatched = map projl (filter isl (map (match_row L by_exact by_norm) rows))
     \<and> length matched + length unmatched = length rows
     \<and> map row matched = filter (\<lambda>r. \<not> isl (match_row L by_exact by_norm r)) rows
     \<and> map u_file_path unmatched
         = map FolderPath (filter (\<lambda>r. isl (match_row L by_exact by_norm r)) rows)
     \<and> (\<forall>r \<in> set rows. \<not> spec_hits L by_exact by_norm r \<longrightarrow>
           match_row L by_exact by_norm r =
             Inl \<lparr> u_file_path = FolderPath r, u_local_title = find_local_title L r,
                   reason = ustr ''not-found-in-likes'' \<rparr>)
     \<and> (\<forall>u \<in> set unmatched. reason u = ustr ''not-found-in-likes'')"
proof -
  let ?f = "match_row L by_exact by_norm"
  have m: "matched = map projr (filter (\<lambda>x. \<not> isl x) (map ?f rows))"
    and u: "unmatched = map projl (filter isl (map ?f rows))"
    using assms by (simp_all add: match_rows_to_likes_def match_loop_char)
  have len: "length matched + length unmatched = length rows"
    unfolding m u using sum_length_filter_compl [of "\<lambda>x. \<not> isl x" "map ?f rows"] by simp
  have rowm: "map row matched = filter (\<lambda>r. \<not> isl (?f r)) rows"
    unfolding m
  proof (induction rows)
    case Nil show ?case by simp
  next
    case (Cons r rows)
    show ?case
    proof (cases "?f r")
      case (Inl x) then show ?thesis using Cons by simp
    next
      case (Inr x) then show ?thesis using Cons match_row_Inr_row [OF Inr] by simp
    qed
  qed
  have rowu: "map u_file_path unmatched = map FolderPath (filter (\<lambda>r. isl (?f r)) rows)"
    unfolding u
  proof (induction rows)
    case Nil show ?case by simp
  next
    case (Cons r rows)
    show ?case
    proof (cases "?f r")
      case (Inl x) then show ?thesis using Cons match_row_Inl [OF Inl] by simp
    next
      case (Inr x) then show ?thesis using Cons by simp
    qed
  qed
  have reasons: "\<forall>u \<in> set unmatched. reason u = ustr ''not-found-in-likes''"
  proof
    fix x assume "x \<in> set unmatched"
    then obtain r where "?f r = Inl x"
      unfolding u by (auto simp: isl_def)
    from match_row_Inl [OF this] show "reason x = ustr ''not-found-in-likes''" by simp
  qed
  show ?thesis using m u len rowm rowu reasons match_row_miss by blast
qed

theorem match_partitions_rows_witness:
  "match_rows_to_likes cpython [ex_row ''/music/t4.mp3'' ''Z''] Map.empty Map.empty =
     ([], [\<lparr> u_file_path = ustr ''/music/t4.mp3'', u_local_title = ustr ''Z'',
              reason = ustr ''not-found-in-likes'' \<rparr>])
   \<and> \<not> spec_hits cpython Map.empty Map.empty (ex_row ''/music/t4.mp3'' ''Z'')
   \<and> match_row cpython Map.empty Map.empty (ex_row ''/music/t4.mp3'' ''Z'') =
       Inl \<lparr> u_file_path = ustr ''/music/t4.mp3'', u_local_title = ustr ''Z'',
             reason = ustr ''not-found-in-likes'' \<rparr>"
proof -
  let ?r = "ex_row ''/music/t4.mp3'' ''Z''"
  have nh: "\<not> spec_hits cpython Map.empty Map.empty ?r"
    by (simp add: spec_hits_def)
  have "\<forall>r \<in> set [?r]. \<not> spec_hits cpython Map.empty Map.empty r \<longrightarrow>
           match_row cpython Map.empty Map.empty r =
             Inl \<lparr> u_file_path = FolderPath r, u_local_title = find_local_title cpython r,
                   reason = ustr ''not-found-in-likes'' \<rparr>"
    using match_partitions_rows [OF ex_miss] by blast
  with nh have "match_row cpython Map.empty Map.empty ?r =
             Inl \<lparr> u_file_path = FolderPath ?r, u_local_title = find_local_title cpython ?r,
                   reason = ustr ''not-found-in-likes'' \<rparr>"
    by simp
  moreover have "find_local_title cpython ?r = ustr ''Z''" and "FolderPath ?r = ustr ''/music/t4.mp3''"
    by (simp_all add: find_local_title_def ex_row_def or_empty_def ustr_def)
  ultimately show ?thesis using ex_miss nh by simp
qed


text \<open>
  C4 as stated names the reason \<^verbatim>\<open>not-found\<close>; the code writes
  \<^verbatim>\<open>not-found-in-likes\<close>, here for the row titled \<open>Z\<close> of the example, which hits neither
  map of the example's index.
\<close>

theorem unmatched_reason_counterexample:
  "\<not> spec_hits cpython (fst (build_likes_maps cpython ex_likes))
        (snd (build_likes_maps cpython ex_likes)) (ex_row ''/music/t4.mp3'' ''Z'')
   \<and> match_row cpython (fst (build_likes_maps cpython ex_likes))
        (snd (build_likes_maps cpython ex_likes)) (ex_row ''/music/t4.mp3'' ''Z'')
       = Inl \<lparr> u_file_path = ustr ''/music/t4.mp3'', u_local_title = ustr ''Z'',
               reason = ustr ''not-found-in-likes'' \<rparr>
   \<and> ustr ''not-found-in-likes'' \<noteq> ustr ''not-found''"
  by (simp add: spec_hits_def spec_candidates_def match_row_def ex_row_def ex_likes_def
      ex_like_def build_likes_maps_def setdefault_def find_local_title_def
      or_empty_def cpython_eval)

text \<open>
  C5. For every row, \<open>match_row\<close> looks the candidates up in the specification's
  order, the record's title if it has one and then the stem of its path: whenever
  one of them is a key of the exact map, the result is that candidate's entry with
  mode \<^verbatim>\<open>exact\<close>, whatever the normalized map holds; only when none is, the first
  candidate whose normalized form is a key of the normalized map decides, with mode
  \<^verbatim>\<open>normalized\<close>. The normalized pass skips a candidate that normalizes to the empty
  string; the empty string is no key of a map that \<open>build_likes_maps\<close> built, and for
  such maps the result is the one the specification's wording gives. The row, the
  two maps and the library are all that \<open>match_row\<close> depends on, so equal inputs give
  equal outcomes.
\<close>

theorem exact_before_normalized:
  "(by_norm [] = None \<longrightarrow>
      outcome_of (match_row L by_exact by_norm r)
        = spec_outcome (spec_match L by_exact by_norm r))
   \<and> ((\<exists>c \<in> set (spec_candidates L r). by_exact c \<noteq> None) \<longrightarrow>
        (\<exists>m. match_row L by_exact by_norm r = Inr m \<and> match_mode m = ustr ''exact''
             \<and> spec_lookup by_exact (spec_candidates L r)
                  = Some \<lparr> index = sc_index m, sc_id = m_sc_id m, title = sc_title m,
                           url = sc_url m \<rparr>))
   \<and> (by_norm [] = None
        \<and> (\<forall>c \<in> set (spec_candidates L r). by_exact c = None)
        \<and> (\<exists>c \<in> set (spec_candidates L r). by_norm (normalize_title L c) \<noteq> None) \<longrightarrow>
        (\<exists>m. match_row L by_exact by_norm r = Inr m \<and> match_mode m = ustr ''normalized''
             \<and> spec_lookup by_norm (map (normalize_title L) (spec_candidates L r))
                  = Some \<lparr> index = sc_index m, sc_id = m_sc_id m, title = sc_title m,
                           url = sc_url m \<rparr>))"
proof (intro conjI impI)
  assume "by_norm [] = None"
  then show "outcome_of (match_row L by_exact by_norm r)
           = spec_outcome (spec_match L by_exact by_norm r)"
    by (rule match_row_spec [where by_norm = by_norm])
next
  assume "\<exists>c \<in> set (spec_candidates L r). by_exact c \<noteq> None"
  then have "spec_lookup by_exact (spec_candidates L r) \<noteq> None"
    by (simp add: spec_lookup_None)
  then obtain it where it: "spec_lookup by_exact (spec_candidates L r) = Some it" by blast
  show "\<exists>m. match_row L by_exact by_norm r = Inr m \<and> match_mode m = ustr ''exact''
               \<and> spec_lookup by_exact (spec_candidates L r)
                    = Some \<lparr> index = sc_index m, sc_id = m_sc_id m, title = sc_title m,
                             url = sc_url m \<rparr>"
    by (simp add: match_row_def Let_def candidates_spec it
        del: exact_pass.simps norm_pass.simps)
next
  assume a: "by_norm [] = None
          \<and> (\<forall>c \<in> set (spec_candidates L r). by_exact c = None)
          \<and> (\<exists>c \<in> set (spec_candidates L r). by_norm (normalize_title L c) \<noteq> None)"
  then have z: "by_norm [] = None" by simp
  from a have e: "spec_lookup by_exact (spec_candidates L r) = None"
    by (simp add: spec_lookup_None)
  from a have "spec_lookup by_norm (map (normalize_title L) (spec_candidates L r)) \<noteq> None"
    by (simp add: spec_lookup_None)
  then obtain it where it: "spec_lookup by_norm (map (normalize_title L) (spec_candidates L r)) = Some it"
    by blast
  show "\<exists>m. match_row L by_exact by_norm r = Inr m \<and> match_mode m = ustr ''normalized''
               \<and> spec_lookup by_norm (map (normalize_title L) (spec_candidates L r))
                    = Some \<lparr> index = sc_index m, sc_id = m_sc_id m, title = sc_title m,
                             url = sc_url m \<rparr>"
    by (simp add: match_row_def Let_def candidates_spec candidates_norm_spec [of by_norm, OF z]
        e it del: exact_pass.simps norm_pass.simps)
qed

theorem exact_before_normalized_witness:
  "snd (build_likes_maps cpython ex_likes) [] = None
   \<and> snd (build_likes_maps cpython ex_likes) (normalize_title cpython (ustr ''A''))
       = Some (ex_like 1 ''A'')
   \<and> outcome_of (match_row cpython (fst (build_likes_maps cpython ex_likes))
        (snd (build_likes_maps cpython ex_likes)) (ex_row ''/music/t2.mp3'' ''A''))
      = Some (1, [], ustr ''A'', [], ustr ''exact'')
   \<and> spec_outcome (spec_match cpython (fst (build_likes_maps cpython ex_likes))
        (snd (build_likes_maps cpython ex_likes)) (ex_row ''/music/t2.mp3'' ''A''))
      = Some (1, [], ustr ''A'', [], ustr ''exact'')"
  using exact_before_normalized [where by_norm = "snd (build_likes_maps cpython ex_likes)"
      and L = cpython and by_exact = "fst (build_likes_maps cpython ex_likes)"
      and r = "ex_row ''/music/t2.mp3'' ''A''"]
    ex_norm_a built_norm_empty [of cpython ex_likes]
  by (simp add: ex_row_A outcome_of_def ex_matched_def)


section \<open>Reference index\<close>

text \<open>
  C6. \<open>build_likes_maps\<close> binds every title to the first entry of the list with that
  title and every non-empty normalized title to the first entry whose title
  normalizes to it; the empty normalized title is never bound. Entries appended to
  the list change no binding that the list already gave, and in a list ordered by
  rank the bound entry has the lowest rank among the entries with that title, or
  with that normalized title.
\<close>

theorem index_first_entry_wins:
  "build_likes_maps L likes = (spec_exact_map likes, spec_norm_map L likes)
   \<and> snd (build_likes_maps L likes) [] = None
   \<and> (\<forall>t e. fst (build_likes_maps L likes) t = Some e \<longrightarrow>
          fst (build_likes_maps L (likes @ later)) t = Some e)
   \<and> (\<forall>k e. snd (build_likes_maps L likes) k = Some e \<longrightarrow>
          snd (build_likes_maps L (likes @ later)) k = Some e)
   \<and> (sorted (map index likes) \<longrightarrow>
        (\<forall>e e'. fst (build_likes_maps L likes) (title e') = Some e \<and> e' \<in> set likes \<longrightarrow>
           index e \<le> index e'))
   \<and> (sorted (map index likes) \<longrightarrow>
        (\<forall>e e'. snd (build_likes_maps L likes) (normalize_title L (title e')) = Some e
             \<and> e' \<in> set likes \<longrightarrow> index e \<le> index e'))"
proof (intro conjI allI impI)
  show "build_likes_maps L likes = (spec_exact_map likes, spec_norm_map L likes)"
    by (rule build_likes_maps_char)
  show "snd (build_likes_maps L likes) [] = None" by (rule built_norm_empty)
next
  fix t e assume "fst (build_likes_maps L likes) t = Some e"
  then show "fst (build_likes_maps L (likes @ later)) t = Some e"
    by (simp add: build_likes_maps_char spec_exact_map_def find_append_Some)
next
  fix k e assume "snd (build_likes_maps L likes) k = Some e"
  then show "snd (build_likes_maps L (likes @ later)) k = Some e"
    by (simp add: build_likes_maps_char spec_norm_map_def find_append_Some split: if_splits)
next
  fix e e'
  assume s: "sorted (map index likes)"
    and a: "fst (build_likes_maps L likes) (title e') = Some e \<and> e' \<in> set likes"
  then have "List.find (\<lambda>x. title x = title e') likes = Some e"
    by (simp add: build_likes_maps_char spec_exact_map_def)
  from find_sorted_least [OF s this, of e'] a show "index e \<le> index e'" by simp
next
  fix e e'
  assume s: "sorted (map index likes)"
    and a: "snd (build_likes_maps L likes) (normalize_title L (title e')) = Some e
             \<and> e' \<in> set likes"
  then have "List.find (\<lambda>x. normalize_title L (title x) = normalize_title L (title e')) likes
               = Some e"
    by (simp add: build_likes_maps_char spec_norm_map_def split: if_splits)
  from find_sorted_least [OF s this, of e'] a show "index e \<le> index e'" by simp
qed

theorem index_first_entry_wins_witness:
  "sorted (map index ex_likes)
   \<and> fst (build_likes_maps cpython ex_likes) (ustr ''A'') = Some (ex_like 1 ''A'')
   \<and> snd (build_likes_maps cpython ex_likes) (ustr ''a'') = Some (ex_like 1 ''A'')
   \<and> fst (build_likes_maps cpython (ex_likes @ [ex_like 5 ''A'', ex_like 6 ''a''])) (ustr ''A'')
       = Some (ex_like 1 ''A'')
   \<and> snd (build_likes_maps cpython (ex_likes @ [ex_like 5 ''A'', ex_like 6 ''a''])) (ustr ''a'')
       = Some (ex_like 1 ''A'')"
  using index_first_entry_wins [of cpython ex_likes "[ex_like 5 ''A'', ex_like 6 ''a'']"]
    ex_dup_index(3,4,5)
  by blast




section \<open>Anchor resolution\<close>

text \<open>
  C8 asks that a run without \<^verbatim>\<open>--anchor-datetime\<close> whose matched rows carry no
  \<^verbatim>\<open>created_at\<close> falls back to the current time. On the rows of the example, none of
  which has a \<^verbatim>\<open>created_at\<close>, \<^verbatim>\<open>max\<close> is called on an empty generator and raises
  \<^verbatim>\<open>ValueError\<close>, in either offset mode and whatever \<^verbatim>\<open>strptime\<close> does: the line
  \<^verbatim>\<open>anchor = datetime.now()\<close> is never reached.
\<close>

theorem anchor_fallback_raises:
  "main cpython sp (ex_world ex_entries ex_rows) (ex_args False) = Raised ValueError
   \<and> main cpython sp (ex_world ex_entries ex_rows) (ex_args True) = Raised ValueError"
proof -
  have old: "\<forall>m \<in> set [ex_matched ''/music/t1.mp3'' ''b'' 2 ''B'' ''normalized'',
       ex_matched ''/music/t2.mp3'' ''A'' 1 ''A'' ''exact'',
       ex_matched ''/music/t3.mp3'' ''d'' 4 ''D'' ''normalized'']. old_created_at m = None"
    by (simp add: ex_matched_def)
  have rows: "ex_rows \<noteq> []" by (simp add: ex_rows_def)
  show ?thesis
    using ex_matching rows
    by (simp add: main_def ex_world_def ex_args_def ex_fetch split_beta
        resolve_anchor_no_timestamps [OF old])
qed


section \<open>Normalizer\<close>

text \<open>
  C7, as the code has it. \<open>normalize_title\<close> is idempotent at every string whose
  normalized form is left as it is by NFKC and by lower-casing and holds no
  full-width colon, for every library whose whitespace includes the space; with the
  library of Python no string in NFKC form holds a full-width colon. Every string of
  ASCII characters and full-width colons is such a string. \<open>normalize_title\<close> maps
  \<^verbatim>\<open>Foo\uff1aBar\<close> and \<^verbatim>\<open>foo:bar\<close> to the key \<^verbatim>\<open>foo:bar\<close>; it maps the string \<^verbatim>\<open>FOO:  BAR\<close>
  with two leading spaces and one trailing space to \<^verbatim>\<open>foo: bar\<close>, since a run of
  whitespace inside the title is replaced by one space and not removed.
\<close>

theorem normalize_title_idempotent_stable:
  "(uc_isspace L 32
      \<and> uc_nfkc L (normalize_title L x) = normalize_title L x
      \<and> uc_lower L (normalize_title L x) = normalize_title L x
      \<and> 65306 \<notin> set (normalize_title L x) \<longrightarrow>
      normalize_title L (normalize_title L x) = normalize_title L x)
   \<and> ((\<forall>c \<in> set s. c < 128 \<or> c = 65306) \<longrightarrow>
      normalize_title cpython (normalize_title cpython s) = normalize_title cpython s)
   \<and> normalize_title cpython [70, 111, 111, 65306, 66, 97, 114] = ustr ''foo:bar''
   \<and> normalize_title cpython (ustr ''foo:bar'') = ustr ''foo:bar''
   \<and> normalize_title cpython (ustr ''  FOO:  BAR '') = ustr ''foo: bar''"
  using normalize_title_stable [of L x] normalize_title_idem [of s] ex_keys by blast

theorem normalize_title_idempotent_stable_witness:
  "normalize_title cpython [104, 817] = [7830]
   \<and> normalize_title cpython (normalize_title cpython [104, 817])
        = normalize_title cpython [104, 817]
   \<and> normalize_title cpython (normalize_title cpython [70, 111, 111, 65306, 66, 97, 114])
        = normalize_title cpython [70, 111, 111, 65306, 66, 97, 114]"
proof -
  have h: "uc_isspace cpython 32
      \<and> uc_nfkc cpython (normalize_title cpython [104, 817]) = normalize_title cpython [104, 817]
      \<and> uc_lower cpython (normalize_title cpython [104, 817]) = normalize_title cpython [104, 817]
      \<and> 65306 \<notin> set (normalize_title cpython [104, 817])"
    by (simp add: ex_line_below)
  have p: "\<forall>c \<in> set [70, 111, 111, 65306, 66, 97, 114]. c < 128 \<or> c = (65306::nat)"
    by simp
  show ?thesis
    using h p ex_line_below(1)
      normalize_title_idempotent_stable [of cpython "[104, 817]" "[70, 111, 111, 65306, 66, 97, 114]"]
    by blast
qed

text \<open>
  C7 as stated fails twice. The third string of the claim does not get the key of
  the second. And \<open>normalize_title\<close> is not idempotent on every string: \<open>H\<close> followed
  by U+0331 is in normal form, lower-casing gives \<open>h\<close> followed by U+0331, and a
  second normalization composes that pair to U+1E96.
\<close>

theorem normalize_title_keys_counterexample:
  "normalize_title cpython (ustr ''  FOO:  BAR '') \<noteq> normalize_title cpython (ustr ''foo:bar'')
   \<and> list_all in_fragment [72, 817]
   \<and> normalize_title cpython (normalize_title cpython [72, 817])
        \<noteq> normalize_title cpython [72, 817]"
proof -
  have a: "normalize_title cpython (ustr ''  FOO:  BAR '')
             \<noteq> normalize_title cpython (ustr ''foo:bar'')"
    by (simp only: ex_keys) (simp add: ustr_def)
  have b: "normalize_title cpython (normalize_title cpython [72, 817])
             \<noteq> normalize_title cpython [72, 817]"
    by (simp only: normalize_title_not_idempotent(2))
       (simp add: normalize_title_not_idempotent(1))
  show ?thesis using a b normalize_title_not_idempotent(3) by blast
qed

end
